theory Spec2Isabelle
  imports Complex_Main
begin

section \<open>Edge request gating: the middleware of the code explainer\<close>

text \<open>
  The development embeds \<^verbatim>\<open>app/lib/middleware.ts\<close> (body size limit, rate limiter,
  CORS, security headers) and the worker entry point \<^verbatim>\<open>workers/app.ts\<close>.

  Conventions of the embedding.
  \<^item> A JavaScript string is a \<open>string\<close>; a \<open>char\<close> stands for the code point of the
    same number, so the model covers strings of code points below 256.
  \<^item> A JavaScript number is an IEEE 754 double. The numbers read from strings
    (\<^verbatim>\<open>parseInt\<close>, \<^verbatim>\<open>parseFloat\<close>) and computed from them are modelled as such: a
    \<open>double\<close>, or a \<open>jsnum\<close> once \<^verbatim>\<open>parseInt\<close> or \<^verbatim>\<open>Math.floor\<close> has made it an integer,
    an infinity or \<^verbatim>\<open>NaN\<close>; reading, multiplying and printing round as the language
    prescribes. The counts and the times of the rate limiter are integers far below
    \<open>2 ^ 53\<close>, on which the arithmetic of doubles is exact; they are of type \<open>int\<close>.
  \<^item> A \<^verbatim>\<open>Headers\<close> object is a map from lower-cased names to values.
  \<^item> A thrown \<^verbatim>\<open>Error\<close> is the left summand of a sum type.
  \<^item> Every reading of \<^verbatim>\<open>Date.now()\<close> and \<^verbatim>\<open>Math.random()\<close> is an input, collected
    in the record \<open>runtime\<close>.
\<close>

subsection \<open>Characters and strings\<close>

definition is_digit :: "char \<Rightarrow> bool" where
  "is_digit c = (48 \<le> (of_char c :: nat) \<and> (of_char c :: nat) \<le> 57)"

definition is_lower :: "char \<Rightarrow> bool" where
  "is_lower c = (97 \<le> (of_char c :: nat) \<and> (of_char c :: nat) \<le> 122)"

text \<open>The white space of \<^verbatim>\<open>\s\<close> and of \<^verbatim>\<open>parseInt\<close> below code point 256:
  TAB, LF, VT, FF, CR, SPACE and NBSP.\<close>

definition is_space :: "char \<Rightarrow> bool" where
  "is_space c = ((of_char c :: nat) \<in> {9, 10, 11, 12, 13, 32, 160})"

text \<open>\<^verbatim>\<open>String.prototype.toLowerCase\<close>: \<open>A\<close>-\<open>Z\<close> and the upper-case letters of
  Latin-1 (\<open>0xC0\<close>-\<open>0xDE\<close> without \<open>0xD7\<close>) move up by 32.\<close>

definition lower_char :: "char \<Rightarrow> char" where
  "lower_char c =
     (let n = (of_char c :: nat)
      in if (65 \<le> n \<and> n \<le> 90) \<or> (192 \<le> n \<and> n \<le> 222 \<and> n \<noteq> 215)
         then char_of (n + 32) else c)"

definition toLowerCase :: "string \<Rightarrow> string" where
  "toLowerCase s = map lower_char s"

definition digit_val :: "char \<Rightarrow> nat" where
  "digit_val c = (of_char c :: nat) - 48"

text \<open>The value of a string of decimal digits, most significant first.\<close>

definition digits_val :: "string \<Rightarrow> nat" where
  "digits_val ds = foldl (\<lambda>acc c. 10 * acc + digit_val c) 0 ds"

definition digit_char :: "nat \<Rightarrow> char" where
  "digit_char d = char_of (48 + d)"

fun show_nat :: "nat \<Rightarrow> string" where
  "show_nat n = (if n < 10 then [digit_char n] else show_nat (n div 10) @ [digit_char (n mod 10)])"

declare show_nat.simps [simp del]

text \<open>The decimal numeral of an integer: how a count or a time of this program prints.\<close>

definition show_int :: "int \<Rightarrow> string" where
  "show_int i = (if i < 0 then CHR ''-'' # show_nat (nat (- i)) else show_nat (nat i))"

subsection \<open>Numbers read from strings\<close>

text \<open>A JavaScript number is an IEEE 754 double. \<open>Finite m q\<close> is the double
  \<open>m * 2 ^ q\<close>; the numbers this program reads are never negative before a sign is put in
  front of them.\<close>

datatype double = Infinity | Finite nat int

text \<open>The number of binary digits of a natural number.\<close>

fun bit_length :: "nat \<Rightarrow> nat" where
  "bit_length n = (if n = 0 then 0 else Suc (bit_length (n div 2)))"

declare bit_length.simps [simp del]

text \<open>The exponent \<open>e\<close> with \<open>2 ^ e \<le> a / b < 2 ^ (e + 1)\<close>, for positive \<open>a\<close> and \<open>b\<close>.\<close>

definition ilog2 :: "nat \<Rightarrow> nat \<Rightarrow> int" where
  "ilog2 a b =
     (if b \<le> a then int (bit_length (a div b)) - 1
      else - int (bit_length ((b + a - 1) div a - 1)))"

text \<open>The integer nearest to \<open>a / b\<close>, the even one of two that are equally near.\<close>

definition round_half_even :: "nat \<Rightarrow> nat \<Rightarrow> nat" where
  "round_half_even a b =
     (let f = a div b; r = a mod b
      in if 2 * r < b then f else if b < 2 * r then f + 1 else if even f then f else f + 1)"

text \<open>The double nearest to \<open>a / b\<close> (round to nearest, ties to even), which is what
  \<^verbatim>\<open>parseInt\<close>, \<^verbatim>\<open>parseFloat\<close> and the multiplication return: 53 binary digits, the least
  exponent \<open>-1074\<close>, and \<^verbatim>\<open>Infinity\<close> from \<open>2 ^ 1024\<close> on.\<close>

definition round_double :: "nat \<Rightarrow> nat \<Rightarrow> double" where
  "round_double a b =
     (if a = 0 then Finite 0 0
      else (let q = max (ilog2 a b - 52) (- 1074);
                m = (if 0 \<le> q then round_half_even a (b * 2 ^ nat q)
                     else round_half_even (a * 2 ^ nat (- q)) b)
            in if 0 \<le> q \<and> 2 ^ 1024 \<le> m * 2 ^ nat q then Infinity else Finite m q))"

text \<open>The product of a double and a positive integer, rounded.\<close>

fun js_times :: "double \<Rightarrow> nat \<Rightarrow> double" where
  "js_times Infinity k = Infinity"
| "js_times (Finite m q) k =
     (if 0 \<le> q then round_double (m * k * 2 ^ nat q) 1 else round_double (m * k) (2 ^ nat (- q)))"

text \<open>A number that holds an integer, an infinity or \<^verbatim>\<open>NaN\<close>: what \<^verbatim>\<open>parseInt\<close> and
  \<^verbatim>\<open>Math.floor\<close> return. Minus zero is \<open>Num 0\<close>: it compares and prints as zero.\<close>

datatype jsnum = NaN | PosInf | NegInf | Num int

text \<open>\<^verbatim>\<open>Math.floor\<close>.\<close>

fun js_floor :: "double \<Rightarrow> jsnum" where
  "js_floor Infinity = PosInf"
| "js_floor (Finite m q) = Num (if 0 \<le> q then int (m * 2 ^ nat q) else int (m div 2 ^ nat (- q)))"

fun js_negate :: "jsnum \<Rightarrow> jsnum" where
  "js_negate NaN = NaN"
| "js_negate PosInf = NegInf"
| "js_negate NegInf = PosInf"
| "js_negate (Num i) = Num (- i)"

text \<open>The comparison \<^verbatim>\<open>a > b\<close>: false as soon as one side is \<^verbatim>\<open>NaN\<close>.\<close>

fun js_gt :: "jsnum \<Rightarrow> jsnum \<Rightarrow> bool" where
  "js_gt NaN _ = False"
| "js_gt _ NaN = False"
| "js_gt PosInf PosInf = False"
| "js_gt PosInf _ = True"
| "js_gt _ PosInf = False"
| "js_gt NegInf _ = False"
| "js_gt (Num a) NegInf = True"
| "js_gt (Num a) (Num b) = (a > b)"

text \<open>\<^verbatim>\<open>Number.prototype.toString\<close>, which template interpolation calls, of a positive
  double \<open>x\<close> that holds an integer: the fewest decimal digits \<open>s\<close>, \<open>k\<close> of them, and the
  exponent \<open>n\<close> such that \<open>s * 10 ^ (n - k)\<close> reads back as \<open>x\<close>; of two candidates the nearer
  one, of two equally near the even one. Up to \<open>n = 21\<close> the digits are followed by
  zeros; beyond, the exponent is written out.\<close>

fun num_digits :: "nat \<Rightarrow> nat" where
  "num_digits n = (if n < 10 then 1 else Suc (num_digits (n div 10)))"

declare num_digits.simps [simp del]

definition reads_as :: "nat \<Rightarrow> nat \<Rightarrow> bool" where
  "reads_as y x = (js_floor (round_double y 1) = Num (int x))"

function shortest :: "nat \<Rightarrow> nat \<Rightarrow> nat \<Rightarrow> nat \<times> nat" where
  "shortest x n k =
     (if n \<le> k then (x, n)
      else (let p = 10 ^ (n - k); lo = x div p; ylo = lo * p; yhi = (lo + 1) * p
            in if reads_as ylo x
                  \<and> (\<not> reads_as yhi x \<or> x - ylo < yhi - x \<or> (x - ylo = yhi - x \<and> even lo))
               then (lo, n)
               else if reads_as yhi x
               then (if lo + 1 = 10 ^ k then (10 ^ (k - 1), n + 1) else (lo + 1, n))
               else shortest x n (k + 1)))"
  by pat_completeness auto
termination
  by (relation "measure (\<lambda>(x, n, k). n - k)") auto

declare shortest.simps [simp del]

definition show_integer :: "nat \<Rightarrow> string" where
  "show_integer x =
     (if x = 0 then ''0''
      else (let (s, n) = shortest x (num_digits x) 1; ds = show_nat s; k = length ds
            in if n \<le> 21 then ds @ replicate (n - k) CHR ''0''
               else hd ds # (if 1 < k then CHR ''.'' # tl ds else []) @ ''e+'' @ show_nat (n - 1)))"

fun show_jsnum :: "jsnum \<Rightarrow> string" where
  "show_jsnum NaN = ''NaN''"
| "show_jsnum PosInf = ''Infinity''"
| "show_jsnum NegInf = ''-Infinity''"
| "show_jsnum (Num i) = (if i < 0 then CHR ''-'' # show_integer (nat (- i)) else show_integer (nat i))"

text \<open>\<^verbatim>\<open>parseInt(s, 10)\<close>: leading white space, an optional sign, then the longest
  prefix of decimal digits, read as a double; \<^verbatim>\<open>NaN\<close> when there is no digit.\<close>

definition parseInt :: "string \<Rightarrow> jsnum" where
  "parseInt s =
     (let t = dropWhile is_space s;
          neg = (case t of c # _ \<Rightarrow> c = CHR ''-'' | [] \<Rightarrow> False);
          r = (case t of c # r \<Rightarrow> if c = CHR ''-'' \<or> c = CHR ''+'' then r else t | [] \<Rightarrow> t);
          ds = takeWhile is_digit r
      in if ds = [] then NaN
         else (let v = js_floor (round_double (digits_val ds) 1) in if neg then js_negate v else v))"

subsection \<open>Headers, requests and responses\<close>

type_synonym headers = "string \<rightharpoonup> string"

definition headers_get :: "headers \<Rightarrow> string \<Rightarrow> string option" where
  "headers_get h name = h (toLowerCase name)"

definition headers_set :: "headers \<Rightarrow> string \<Rightarrow> string \<Rightarrow> headers" where
  "headers_set h name v = h(toLowerCase name \<mapsto> v)"

record request =
  request_method :: string
  request_headers :: headers
  request_body :: string

datatype body = NullBody | TextBody string | JsonBody "(string \<times> string) list" | StreamBody string

record response =
  status :: nat
  statusText :: string
  response_headers :: headers
  response_body :: body

text \<open>\<^verbatim>\<open>Response.json(data, {status, headers})\<close>: the serialised object as body and
  a JSON content type unless the given headers already have one.\<close>

definition Response_json :: "(string \<times> string) list \<Rightarrow> nat \<Rightarrow> headers \<Rightarrow> response" where
  "Response_json data st hs =
     \<lparr>status = st, statusText = '''',
      response_headers =
        (case headers_get hs ''content-type'' of
           None \<Rightarrow> headers_set hs ''content-type'' ''application/json''
         | Some _ \<Rightarrow> hs),
      response_body = JsonBody data\<rparr>"

subsection \<open>Body size limit\<close>

datatype exn = InvalidSizeFormat string

text \<open>The match of \<^verbatim>\<open>/^(\d+(?:\.\d+)?)\s*([a-z]+)?$/\<close>: the digits before the point,
  the digits after it when there is a point, and the unit when there is one. The
  expression has no choice to backtrack over: a shorter run of digits, white space or
  letters leaves a character that nothing after it accepts.\<close>

definition match_tail :: "string \<Rightarrow> string option option" where
  "match_tail r =
     (let r' = dropWhile is_space r;
          u = takeWhile is_lower r'
      in if dropWhile is_lower r' \<noteq> [] then None
         else Some (if u = [] then None else Some u))"

definition size_match :: "string \<Rightarrow> (string \<times> string option \<times> string option) option" where
  "size_match s =
     (let ds = takeWhile is_digit s; r = dropWhile is_digit s
      in if ds = [] then None
         else (case r of
                 c # r2 \<Rightarrow>
                   if c = CHR ''.''
                   then (let fs = takeWhile is_digit r2
                         in if fs = [] then None
                            else map_option (\<lambda>u. (ds, Some fs, u)) (match_tail (dropWhile is_digit r2)))
                   else map_option (\<lambda>u. (ds, None, u)) (match_tail r)
               | [] \<Rightarrow> map_option (\<lambda>u. (ds, None, u)) (match_tail r)))"

text \<open>\<^verbatim>\<open>parseFloat\<close> of the first group, an unsigned decimal numeral: the double nearest
  to it.\<close>

definition parseFloat :: "string \<times> string option \<Rightarrow> double" where
  "parseFloat p =
     (case p of
        (ds, None) \<Rightarrow> round_double (digits_val ds) 1
      | (ds, Some fs) \<Rightarrow> round_double (digits_val (ds @ fs)) (10 ^ length fs))"

text \<open>The table \<^verbatim>\<open>units\<close> is an object literal, so besides its four own keys the
  lookup \<^verbatim>\<open>units[unit]\<close> finds what \<^verbatim>\<open>Object.prototype\<close> has under a name of lower-case
  letters: \<^verbatim>\<open>constructor\<close>, a function. \<open>Some None\<close> stands for that function.\<close>

definition units :: "string \<Rightarrow> nat option option" where
  "units u =
     (if u = ''b'' then Some (Some 1)
      else if u = ''kb'' then Some (Some 1024)
      else if u = ''mb'' then Some (Some (1024 * 1024))
      else if u = ''gb'' then Some (Some (1024 * 1024 * 1024))
      else if u = ''constructor'' then Some None
      else None)"

text \<open>\<^verbatim>\<open>parseSize\<close>. The multiplier is \<^verbatim>\<open>units[unit] || 1\<close>; a function is truthy and
  its product with a number is \<^verbatim>\<open>NaN\<close>.\<close>

definition parseSize :: "string \<Rightarrow> exn + jsnum" where
  "parseSize size_str =
     (case size_match (toLowerCase size_str) of
        None \<Rightarrow> Inl (InvalidSizeFormat size_str)
      | Some (ds, fs, u) \<Rightarrow>
          (let v = parseFloat (ds, fs);
               unit = (case u of None \<Rightarrow> ''b'' | Some w \<Rightarrow> w);
               multiplier = (case units unit of None \<Rightarrow> Some 1 | Some m \<Rightarrow> m)
           in Inr (case multiplier of None \<Rightarrow> NaN | Some m \<Rightarrow> js_floor (js_times v m))))"

record body_check =
  valid :: bool
  body_error :: "response option"

text \<open>\<^verbatim>\<open>checkBodySizeLimit\<close>. A missing header and an empty one are both falsy.\<close>

definition checkBodySizeLimit :: "request \<Rightarrow> string \<Rightarrow> exn + body_check" where
  "checkBodySizeLimit req limit =
     (case headers_get (request_headers req) ''content-length'' of
        None \<Rightarrow> Inr \<lparr>valid = True, body_error = None\<rparr>
      | Some contentLength \<Rightarrow>
          if contentLength = [] then Inr \<lparr>valid = True, body_error = None\<rparr>
          else (case parseSize limit of
                  Inl e \<Rightarrow> Inl e
                | Inr sizeLimit \<Rightarrow>
                    (let requestSize = parseInt contentLength
                     in if js_gt requestSize sizeLimit
                        then Inr \<lparr>valid = False,
                                  body_error = Some (Response_json
                                    [(''error'', ''Payload too large''),
                                     (''message'', ''Request body size ('' @ show_jsnum requestSize
                                        @ '' bytes) exceeds limit ('' @ show_jsnum sizeLimit @ '' bytes)'')]
                                    413 Map.empty)\<rparr>
                        else Inr \<lparr>valid = True, body_error = None\<rparr>)))"

subsection \<open>Rate limiter\<close>

record window =
  count :: int
  resetAt :: int

record RateLimiter =
  requests :: "string \<rightharpoonup> window"
  windowMs :: int
  maxRequests :: int

text \<open>The constructor: an empty table and the two read-only settings.\<close>

definition new_RateLimiter :: "int \<Rightarrow> int \<Rightarrow> RateLimiter" where
  "new_RateLimiter maxRequestsArg windowMsArg =
     \<lparr>requests = Map.empty, windowMs = windowMsArg, maxRequests = maxRequestsArg\<rparr>"

text \<open>\<^verbatim>\<open>getClientId\<close>: the address Cloudflare reports when the header is there and
  not empty, else user agent and origin, each \<^verbatim>\<open>unknown\<close> when missing or empty.\<close>

definition or_unknown :: "string option \<Rightarrow> string" where
  "or_unknown v = (case v of None \<Rightarrow> ''unknown'' | Some s \<Rightarrow> if s = [] then ''unknown'' else s)"

definition getClientId :: "request \<Rightarrow> string" where
  "getClientId req =
     (let cfConnectingIp = headers_get (request_headers req) ''cf-connecting-ip'';
          userAgent = or_unknown (headers_get (request_headers req) ''user-agent'');
          origin = or_unknown (headers_get (request_headers req) ''origin'')
      in case cfConnectingIp of
           None \<Rightarrow> userAgent @ ''-'' @ origin
         | Some ip \<Rightarrow> if ip = [] then userAgent @ ''-'' @ origin else ip)"

record verdict =
  allowed :: bool
  remaining :: int
  verdict_resetAt :: int

text \<open>\<^verbatim>\<open>isAllowed\<close>, with the reading of \<^verbatim>\<open>Date.now()\<close> as the argument \<open>now\<close>.
  The limiter is returned with its table updated.\<close>

definition new_window :: "RateLimiter \<Rightarrow> string \<Rightarrow> int \<Rightarrow> verdict \<times> RateLimiter" where
  "new_window this clientId now =
     (\<lparr>allowed = True, remaining = maxRequests this - 1, verdict_resetAt = now + windowMs this\<rparr>,
      this\<lparr>requests := (requests this)(clientId \<mapsto> \<lparr>count = 1, resetAt = now + windowMs this\<rparr>)\<rparr>)"

definition isAllowed :: "RateLimiter \<Rightarrow> request \<Rightarrow> int \<Rightarrow> verdict \<times> RateLimiter" where
  "isAllowed this req now =
     (let clientId = getClientId req
      in case requests this clientId of
           None \<Rightarrow> new_window this clientId now
         | Some rec \<Rightarrow>
             if now > resetAt rec then new_window this clientId now
             else if count rec \<ge> maxRequests this
             then (\<lparr>allowed = False, remaining = 0, verdict_resetAt = resetAt rec\<rparr>, this)
             else (\<lparr>allowed = True, remaining = maxRequests this - (count rec + 1),
                    verdict_resetAt = resetAt rec\<rparr>,
                   this\<lparr>requests := (requests this)(clientId \<mapsto> rec\<lparr>count := count rec + 1\<rparr>)\<rparr>))"

text \<open>\<^verbatim>\<open>cleanup\<close>: every entry whose window has passed is deleted.\<close>

definition cleanup :: "RateLimiter \<Rightarrow> int \<Rightarrow> RateLimiter" where
  "cleanup this now =
     this\<lparr>requests := (\<lambda>key. case requests this key of
                                 None \<Rightarrow> None
                               | Some v \<Rightarrow> if now > resetAt v then None else Some v)\<rparr>"

text \<open>The module's only limiter: 100 requests per minute.\<close>

definition rateLimiter :: RateLimiter where
  "rateLimiter = new_RateLimiter 100 60000"

text \<open>What the JavaScript runtime supplies during one call of \<^verbatim>\<open>checkRateLimit\<close>: the
  draw of \<^verbatim>\<open>Math.random()\<close>, the three readings of \<^verbatim>\<open>Date.now()\<close> (in \<^verbatim>\<open>cleanup\<close>, in
  \<^verbatim>\<open>isAllowed\<close> and for \<^verbatim>\<open>Retry-After\<close>), and \<^verbatim>\<open>Date.prototype.toISOString\<close>.\<close>

record runtime =
  random :: real
  now_cleanup :: int
  now_isAllowed :: int
  now_retry :: int
  toISOString :: "int \<Rightarrow> string"

record rate_check =
  rate_allowed :: bool
  rate_error :: "response option"
  rate_headers :: headers

text \<open>The headers of \<^verbatim>\<open>checkRateLimit\<close>; \<^verbatim>\<open>X-RateLimit-Reset\<close> is set when
  \<^verbatim>\<open>result.resetAt\<close> is truthy, that is, not zero.\<close>

definition rate_limit_headers :: "runtime \<Rightarrow> int \<Rightarrow> verdict \<Rightarrow> headers" where
  "rate_limit_headers rt maxRequestsArg result =
     (let h1 = headers_set Map.empty ''X-RateLimit-Limit'' (show_int maxRequestsArg);
          h2 = headers_set h1 ''X-RateLimit-Remaining'' (show_int (remaining result))
      in if verdict_resetAt result \<noteq> 0
         then headers_set h2 ''X-RateLimit-Reset'' (toISOString rt (verdict_resetAt result))
         else h2)"

text \<open>\<^verbatim>\<open>checkRateLimit\<close>. The table of the module's limiter is passed in and returned;
  its two settings are those of \<open>rateLimiter\<close>. The arguments \<open>maxRequestsArg\<close> and
  \<open>windowMsArg\<close> are the function's parameters \<^verbatim>\<open>maxRequests\<close> and \<^verbatim>\<open>windowMs\<close>.\<close>

definition checkRateLimit ::
  "runtime \<Rightarrow> (string \<rightharpoonup> window) \<Rightarrow> request \<Rightarrow> int \<Rightarrow> int \<Rightarrow> rate_check \<times> (string \<rightharpoonup> window)" where
  "checkRateLimit rt tbl req maxRequestsArg windowMsArg =
     (let limiter = rateLimiter\<lparr>requests := tbl\<rparr>;
          swept = (if random rt < 1 / 1000 then cleanup limiter (now_cleanup rt) else limiter);
          (result, limiter') = isAllowed swept req (now_isAllowed rt);
          hs = rate_limit_headers rt maxRequestsArg result
      in if \<not> allowed result
         then (\<lparr>rate_allowed = False,
                 rate_error = Some (Response_json
                   [(''error'', ''Too many requests''),
                    (''message'', ''Rate limit exceeded. Please try again later.'')]
                   429
                   (headers_set hs ''Retry-After''
                      (show_int (ceiling (of_int (verdict_resetAt result - now_retry rt) / (1000 :: rat)))))),
                 rate_headers = hs\<rparr>, requests limiter')
         else (\<lparr>rate_allowed = True, rate_error = None, rate_headers = hs\<rparr>, requests limiter'))"

subsection \<open>CORS and security headers\<close>

record cors_result =
  isPreflight :: bool
  preflightResponse :: "response option"

text \<open>\<^verbatim>\<open>handleCORS\<close>. A response built from a string has the plain-text content
  type; one built from \<^verbatim>\<open>null\<close> has the given headers only.\<close>

definition handleCORS :: "request \<Rightarrow> string \<Rightarrow> cors_result" where
  "handleCORS req allowedOrigin =
     (let origin = headers_get (request_headers req) ''Origin''
      in if request_method req = ''OPTIONS''
         then if origin = Some allowedOrigin
              then \<lparr>isPreflight = True,
                    preflightResponse = Some
                      \<lparr>status = 204, statusText = '''',
                       response_headers =
                         headers_set (headers_set (headers_set (headers_set (headers_set Map.empty
                           ''Access-Control-Allow-Origin'' allowedOrigin)
                           ''Access-Control-Allow-Methods'' ''GET, POST, PUT, DELETE, PATCH, OPTIONS'')
                           ''Access-Control-Allow-Headers'' ''Content-Type, Authorization'')
                           ''Access-Control-Max-Age'' ''86400'')
                           ''Access-Control-Allow-Credentials'' ''true'',
                       response_body = NullBody\<rparr>\<rparr>
              else \<lparr>isPreflight = True,
                    preflightResponse = Some
                      \<lparr>status = 403, statusText = '''',
                       response_headers =
                         headers_set Map.empty ''content-type'' ''text/plain;charset=UTF-8'',
                       response_body = TextBody ''Forbidden''\<rparr>\<rparr>
         else \<lparr>isPreflight = False, preflightResponse = None\<rparr>)"

text \<open>\<^verbatim>\<open>addCORSHeaders\<close>: a copy of the response with three headers set, or the
  response itself.\<close>

definition addCORSHeaders :: "response \<Rightarrow> request \<Rightarrow> string \<Rightarrow> response" where
  "addCORSHeaders resp req allowedOrigin =
     (let origin = headers_get (request_headers req) ''Origin''
      in if origin = Some allowedOrigin
         then \<lparr>status = status resp, statusText = statusText resp,
               response_headers =
                 headers_set (headers_set (headers_set (response_headers resp)
                   ''Access-Control-Allow-Origin'' allowedOrigin)
                   ''Access-Control-Allow-Credentials'' ''true'')
                   ''Vary'' ''Origin'',
               response_body = response_body resp\<rparr>
         else resp)"

text \<open>The two long header values; \<open>q\<close> is the single quote.\<close>

definition csp_value :: string where
  "csp_value =
     (let q = [CHR 0x27]
      in ''default-src '' @ q @ ''self'' @ q @ ''; script-src '' @ q @ ''self'' @ q @ '' ''
           @ q @ ''unsafe-inline'' @ q @ '' '' @ q @ ''unsafe-eval'' @ q
           @ ''; style-src '' @ q @ ''self'' @ q @ '' '' @ q @ ''unsafe-inline'' @ q
           @ '' https://fonts.googleapis.com; font-src '' @ q @ ''self'' @ q
           @ '' https://fonts.gstatic.com; img-src '' @ q @ ''self'' @ q
           @ '' data: https:; connect-src '' @ q @ ''self'' @ q)"

definition permissions_value :: string where
  "permissions_value = ''geolocation=(), microphone=(), camera=(), payment=(), usb=(), magnetometer=(), gyroscope=(), speaker=()''"

text \<open>\<^verbatim>\<open>addSecurityHeaders\<close>: a copy of the response with seven headers set.\<close>

definition addSecurityHeaders :: "response \<Rightarrow> response" where
  "addSecurityHeaders resp =
     \<lparr>status = status resp, statusText = statusText resp,
      response_headers =
        headers_set (headers_set (headers_set (headers_set (headers_set (headers_set (headers_set
          (response_headers resp)
          ''X-Frame-Options'' ''DENY'')
          ''X-Content-Type-Options'' ''nosniff'')
          ''X-XSS-Protection'' ''1; mode=block'')
          ''Strict-Transport-Security'' ''max-age=31536000; includeSubDomains'')
          ''Content-Security-Policy'' csp_value)
          ''Referrer-Policy'' ''strict-origin-when-cross-origin'')
          ''Permissions-Policy'' permissions_value,
      response_body = response_body resp\<rparr>"

subsection \<open>The middleware chain and the worker\<close>

record rate_options =
  opt_maxRequests :: "int option"
  opt_windowMs :: "int option"

record options =
  bodySizeLimit :: "string option"
  rateLimit :: "rate_options option"
  securityHeaders :: "bool option"

record middleware_result =
  middleware_error :: "response option"
  modifiedRequest :: "request option"

text \<open>\<^verbatim>\<open>applyMiddleware\<close>: the size check, then the rate check. A missing option takes
  its default; a missing field of \<^verbatim>\<open>rateLimit\<close> takes the default of the parameter of
  \<^verbatim>\<open>checkRateLimit\<close>. An exception of the size check leaves the table as it was.\<close>

definition applyMiddleware ::
  "runtime \<Rightarrow> (string \<rightharpoonup> window) \<Rightarrow> request \<Rightarrow> options
     \<Rightarrow> (exn + middleware_result) \<times> (string \<rightharpoonup> window)" where
  "applyMiddleware rt tbl req opts =
     (let limit = (case bodySizeLimit opts of None \<Rightarrow> ''10mb'' | Some l \<Rightarrow> l);
          rl = (case rateLimit opts of
                  None \<Rightarrow> \<lparr>opt_maxRequests = Some 100, opt_windowMs = Some 60000\<rparr>
                | Some r \<Rightarrow> r)
      in case checkBodySizeLimit req limit of
           Inl e \<Rightarrow> (Inl e, tbl)
         | Inr bodyCheck \<Rightarrow>
             if \<not> valid bodyCheck
             then (Inr \<lparr>middleware_error = body_error bodyCheck, modifiedRequest = None\<rparr>, tbl)
             else (let (rateCheck, tbl') =
                         checkRateLimit rt tbl req
                           (case opt_maxRequests rl of None \<Rightarrow> 100 | Some m \<Rightarrow> m)
                           (case opt_windowMs rl of None \<Rightarrow> 60000 | Some w \<Rightarrow> w)
                   in if \<not> rate_allowed rateCheck
                      then (Inr \<lparr>middleware_error = rate_error rateCheck, modifiedRequest = None\<rparr>, tbl')
                      else (Inr \<lparr>middleware_error = None, modifiedRequest = Some req\<rparr>, tbl')))"

record Env =
  FRONTEND_URL :: "string option"

text \<open>\<^verbatim>\<open>env.FRONTEND_URL || "http://localhost:5173"\<close>.\<close>

definition allowed_origin :: "Env \<Rightarrow> string" where
  "allowed_origin env =
     (case FRONTEND_URL env of
        None \<Rightarrow> ''http://localhost:5173''
      | Some u \<Rightarrow> if u = [] then ''http://localhost:5173'' else u)"

text \<open>The options the worker passes to \<^verbatim>\<open>applyMiddleware\<close>.\<close>

definition worker_options :: options where
  "worker_options =
     \<lparr>bodySizeLimit = Some ''10mb'',
      rateLimit = Some \<lparr>opt_maxRequests = Some 100, opt_windowMs = Some (15 * 60 * 1000)\<rparr>,
      securityHeaders = Some True\<rparr>"

text \<open>\<^verbatim>\<open>fetch\<close>. The application behind the gate is the parameter \<open>requestHandler\<close>.\<close>

definition fetch ::
  "(request \<Rightarrow> response) \<Rightarrow> runtime \<Rightarrow> (string \<rightharpoonup> window) \<Rightarrow> request \<Rightarrow> Env
     \<Rightarrow> (exn + response) \<times> (string \<rightharpoonup> window)" where
  "fetch requestHandler rt tbl req env =
     (let allowedOrigin = allowed_origin env;
          corsResult = handleCORS req allowedOrigin
      in if isPreflight corsResult
         then (Inr (case preflightResponse corsResult of
                      Some r \<Rightarrow> r
                    | None \<Rightarrow> \<lparr>status = 204, statusText = '''', response_headers = Map.empty,
                               response_body = NullBody\<rparr>), tbl)
         else (case applyMiddleware rt tbl req worker_options of
                 (Inl e, tbl') \<Rightarrow> (Inl e, tbl')
               | (Inr middlewareResult, tbl') \<Rightarrow>
                   (case middleware_error middlewareResult of
                      Some err \<Rightarrow> (Inr (addCORSHeaders (addSecurityHeaders err) req allowedOrigin), tbl')
                    | None \<Rightarrow>
                        (let resp = requestHandler (case modifiedRequest middlewareResult of
                                                      Some r \<Rightarrow> r | None \<Rightarrow> req)
                         in (Inr (addCORSHeaders (addSecurityHeaders resp) req allowedOrigin), tbl')))))"

subsection \<open>Sequences of calls\<close>

text \<open>A run of the limiter: calls of \<^verbatim>\<open>isAllowed\<close> and of \<^verbatim>\<open>cleanup\<close>, each with its
  reading of the clock, in the order they happen. The verdicts come back in that order.\<close>

datatype event = Admit request int | Sweep int

fun run :: "RateLimiter \<Rightarrow> event list \<Rightarrow> verdict list \<times> RateLimiter" where
  "run this [] = ([], this)"
| "run this (Admit req now # es) =
     (let (v, this') = isAllowed this req now;
          (vs, this'') = run this' es
      in (v # vs, this''))"
| "run this (Sweep now # es) = run (cleanup this now) es"

text \<open>A sequence of calls of \<^verbatim>\<open>checkRateLimit\<close>, each with what the runtime supplies
  to it; the table after the last one.\<close>

fun serve :: "int \<Rightarrow> int \<Rightarrow> (string \<rightharpoonup> window) \<Rightarrow> (runtime \<times> request) list \<Rightarrow> (string \<rightharpoonup> window)" where
  "serve maxRequestsArg windowMsArg tbl [] = tbl"
| "serve maxRequestsArg windowMsArg tbl ((rt, req) # es) =
     serve maxRequestsArg windowMsArg (snd (checkRateLimit rt tbl req maxRequestsArg windowMsArg)) es"

text \<open>The invariant of the table: every stored count lies between one and the quota.\<close>

definition windows_bounded :: "RateLimiter \<Rightarrow> bool" where
  "windows_bounded this =
     (\<forall>c rec. requests this c = Some rec \<longrightarrow> 1 \<le> count rec \<and> count rec \<le> maxRequests this)"

subsection \<open>Inputs of the examples\<close>

text \<open>A request that Cloudflare attributes to the address \<open>ip\<close>, with the given
  method and further headers.\<close>

definition client :: "string \<Rightarrow> request" where
  "client ip = \<lparr>request_method = ''POST'', request_headers = [''cf-connecting-ip'' \<mapsto> ip], request_body = ''''\<rparr>"

definition with_header :: "request \<Rightarrow> string \<Rightarrow> string \<Rightarrow> request" where
  "with_header req name v = req\<lparr>request_headers := headers_set (request_headers req) name v\<rparr>"

text \<open>\<^verbatim>\<open>toISOString\<close> at 60005 ms after the epoch. No statement below reads the header
  \<^verbatim>\<open>X-RateLimit-Reset\<close> of an example, so no other date is needed.\<close>

definition iso_60005 :: "int \<Rightarrow> string" where
  "iso_60005 t = ''1970-01-01T00:01:00.005Z''"

text \<open>A runtime whose three clock readings agree.\<close>

definition runtime_at :: "real \<Rightarrow> int \<Rightarrow> runtime" where
  "runtime_at r t = \<lparr>random = r, now_cleanup = t, now_isAllowed = t, now_retry = t, toISOString = iso_60005\<rparr>"

definition downstream_ok :: "request \<Rightarrow> response" where
  "downstream_ok req =
     \<lparr>status = 200, statusText = ''OK'', response_headers = [''content-type'' \<mapsto> ''text/html''],
      response_body = StreamBody ''<html></html>''\<rparr>"

section \<open>Properties\<close>

subsection \<open>Header names\<close>

lemma lower_header_names:
  "toLowerCase ''Origin'' = ''origin''"
  "toLowerCase ''origin'' = ''origin''"
  "toLowerCase ''content-length'' = ''content-length''"
  "toLowerCase ''Content-Length'' = ''content-length''"
  "toLowerCase ''content-type'' = ''content-type''"
  "toLowerCase ''Content-Type'' = ''content-type''"
  "toLowerCase ''cf-connecting-ip'' = ''cf-connecting-ip''"
  "toLowerCase ''user-agent'' = ''user-agent''"
  "toLowerCase ''Access-Control-Allow-Origin'' = ''access-control-allow-origin''"
  "toLowerCase ''Access-Control-Allow-Methods'' = ''access-control-allow-methods''"
  "toLowerCase ''Access-Control-Allow-Headers'' = ''access-control-allow-headers''"
  "toLowerCase ''Access-Control-Max-Age'' = ''access-control-max-age''"
  "toLowerCase ''Access-Control-Allow-Credentials'' = ''access-control-allow-credentials''"
  "toLowerCase ''Vary'' = ''vary''"
  "toLowerCase ''X-Frame-Options'' = ''x-frame-options''"
  "toLowerCase ''X-Content-Type-Options'' = ''x-content-type-options''"
  "toLowerCase ''X-XSS-Protection'' = ''x-xss-protection''"
  "toLowerCase ''Strict-Transport-Security'' = ''strict-transport-security''"
  "toLowerCase ''Content-Security-Policy'' = ''content-security-policy''"
  "toLowerCase ''Referrer-Policy'' = ''referrer-policy''"
  "toLowerCase ''Permissions-Policy'' = ''permissions-policy''"
  "toLowerCase ''X-RateLimit-Limit'' = ''x-ratelimit-limit''"
  "toLowerCase ''X-RateLimit-Remaining'' = ''x-ratelimit-remaining''"
  "toLowerCase ''X-RateLimit-Reset'' = ''x-ratelimit-reset''"
  "toLowerCase ''Retry-After'' = ''retry-after''"
  by code_simp+

lemma getClientId_client: "ip \<noteq> [] \<Longrightarrow> getClientId (client ip) = ip"
  by (simp add: getClientId_def client_def headers_get_def lower_header_names)

subsection \<open>The fixed-window counter\<close>

lemma isAllowed_fresh:
  assumes "requests this (getClientId req) = None
           \<or> (\<exists>rec. requests this (getClientId req) = Some rec \<and> now > resetAt rec)"
  shows "isAllowed this req now =
     (\<lparr>allowed = True, remaining = maxRequests this - 1, verdict_resetAt = now + windowMs this\<rparr>,
      this\<lparr>requests := (requests this)(getClientId req \<mapsto> \<lparr>count = 1, resetAt = now + windowMs this\<rparr>)\<rparr>)"
  using assms by (auto simp add: isAllowed_def new_window_def)

lemma isAllowed_denied:
  assumes "requests this (getClientId req) = Some rec" "\<not> now > resetAt rec"
          "count rec \<ge> maxRequests this"
  shows "isAllowed this req now =
     (\<lparr>allowed = False, remaining = 0, verdict_resetAt = resetAt rec\<rparr>, this)"
  using assms by (simp add: isAllowed_def)

lemma isAllowed_counted:
  assumes "requests this (getClientId req) = Some rec" "\<not> now > resetAt rec"
          "\<not> count rec \<ge> maxRequests this"
  shows "isAllowed this req now =
     (\<lparr>allowed = True, remaining = maxRequests this - (count rec + 1), verdict_resetAt = resetAt rec\<rparr>,
      this\<lparr>requests := (requests this)(getClientId req \<mapsto> rec\<lparr>count := count rec + 1\<rparr>)\<rparr>)"
  using assms by (simp add: isAllowed_def)

text \<open>
  C2. \<^verbatim>\<open>isAllowed\<close> is the fixed-window counter. For every limiter, request and clock
  reading: when the client has no record, or the clock is past the record's \<open>resetAt\<close>, the
  record becomes \<open>{count: 1, resetAt: now + windowMs}\<close> and the verdict is allowed with
  \<open>remaining = maxRequests - 1\<close>; else, when \<open>count \<ge> maxRequests\<close>, the verdict is denied
  with \<open>remaining = 0\<close> and the record's \<open>resetAt\<close>, and nothing is stored; else the count
  goes up by one and the verdict is allowed with \<open>remaining = maxRequests - count\<close>, for
  the new count.
\<close>

theorem isAllowed_fixed_window:
  "(requests this (getClientId req) = None
      \<or> (\<exists>rec. requests this (getClientId req) = Some rec \<and> now > resetAt rec)
    \<longrightarrow> isAllowed this req now =
         (\<lparr>allowed = True, remaining = maxRequests this - 1, verdict_resetAt = now + windowMs this\<rparr>,
          this\<lparr>requests := (requests this)(getClientId req \<mapsto>
                   \<lparr>count = 1, resetAt = now + windowMs this\<rparr>)\<rparr>))
   \<and> (\<forall>rec. requests this (getClientId req) = Some rec \<and> now \<le> resetAt rec
              \<and> count rec \<ge> maxRequests this
    \<longrightarrow> isAllowed this req now =
         (\<lparr>allowed = False, remaining = 0, verdict_resetAt = resetAt rec\<rparr>, this))
   \<and> (\<forall>rec. requests this (getClientId req) = Some rec \<and> now \<le> resetAt rec
              \<and> count rec < maxRequests this
    \<longrightarrow> isAllowed this req now =
         (\<lparr>allowed = True, remaining = maxRequests this - count (rec\<lparr>count := count rec + 1\<rparr>),
           verdict_resetAt = resetAt rec\<rparr>,
          this\<lparr>requests := (requests this)(getClientId req \<mapsto> rec\<lparr>count := count rec + 1\<rparr>)\<rparr>))"
  using isAllowed_fresh [of this req now] isAllowed_denied [of this req _ now]
    isAllowed_counted [of this req _ now]
  by (simp add: not_less not_le)

theorem isAllowed_fixed_window_witness:
  "isAllowed rateLimiter (client ''A'') 5 =
     (\<lparr>allowed = True, remaining = 99, verdict_resetAt = 60005\<rparr>,
      rateLimiter\<lparr>requests := [''A'' \<mapsto> \<lparr>count = 1, resetAt = 60005\<rparr>]\<rparr>)
   \<and> isAllowed (rateLimiter\<lparr>requests := [''A'' \<mapsto> \<lparr>count = 100, resetAt = 60005\<rparr>]\<rparr>) (client ''A'') 7 =
     (\<lparr>allowed = False, remaining = 0, verdict_resetAt = 60005\<rparr>,
      rateLimiter\<lparr>requests := [''A'' \<mapsto> \<lparr>count = 100, resetAt = 60005\<rparr>]\<rparr>)
   \<and> isAllowed (rateLimiter\<lparr>requests := [''A'' \<mapsto> \<lparr>count = 41, resetAt = 60005\<rparr>]\<rparr>) (client ''A'') 7 =
     (\<lparr>allowed = True, remaining = 58, verdict_resetAt = 60005\<rparr>,
      rateLimiter\<lparr>requests := [''A'' \<mapsto> \<lparr>count = 42, resetAt = 60005\<rparr>]\<rparr>)"
  using isAllowed_fixed_window [of rateLimiter "client ''A''" 5]
    isAllowed_fixed_window [of "rateLimiter\<lparr>requests := [''A'' \<mapsto> \<lparr>count = 100, resetAt = 60005\<rparr>]\<rparr>" "client ''A''" 7]
    isAllowed_fixed_window [of "rateLimiter\<lparr>requests := [''A'' \<mapsto> \<lparr>count = 41, resetAt = 60005\<rparr>]\<rparr>" "client ''A''" 7]
  by (simp add: getClientId_client rateLimiter_def new_RateLimiter_def)

subsection \<open>CORS\<close>

text \<open>
  C9. On an \<^verbatim>\<open>OPTIONS\<close> request whose \<^verbatim>\<open>Origin\<close> header equals the allowed origin,
  \<^verbatim>\<open>handleCORS\<close> answers 204 with no body and exactly five headers: the allowed
  origin, the six methods, the two request headers, a max age of 86400 and credentials
  \<open>true\<close>. On an \<^verbatim>\<open>OPTIONS\<close> request with any other origin, a missing one included, it
  answers 403 with the body \<open>Forbidden\<close> and the content type as only header. On any
  other method it reports no preflight and no response.
\<close>

theorem handleCORS_preflight:
  "(request_method req = ''OPTIONS'' \<and> headers_get (request_headers req) ''Origin'' = Some allowedOrigin \<longrightarrow>
      handleCORS req allowedOrigin =
        \<lparr>isPreflight = True,
         preflightResponse = Some
           \<lparr>status = 204, statusText = '''',
            response_headers =
              [''access-control-allow-origin'' \<mapsto> allowedOrigin,
               ''access-control-allow-methods'' \<mapsto> ''GET, POST, PUT, DELETE, PATCH, OPTIONS'',
               ''access-control-allow-headers'' \<mapsto> ''Content-Type, Authorization'',
               ''access-control-max-age'' \<mapsto> ''86400'',
               ''access-control-allow-credentials'' \<mapsto> ''true''],
            response_body = NullBody\<rparr>\<rparr>)
   \<and> (request_method req = ''OPTIONS'' \<and> headers_get (request_headers req) ''Origin'' \<noteq> Some allowedOrigin \<longrightarrow>
      handleCORS req allowedOrigin =
        \<lparr>isPreflight = True,
         preflightResponse = Some
           \<lparr>status = 403, statusText = '''',
            response_headers = [''content-type'' \<mapsto> ''text/plain;charset=UTF-8''],
            response_body = TextBody ''Forbidden''\<rparr>\<rparr>)
   \<and> (request_method req \<noteq> ''OPTIONS'' \<longrightarrow>
      handleCORS req allowedOrigin = \<lparr>isPreflight = False, preflightResponse = None\<rparr>)"
  by (simp add: handleCORS_def headers_set_def lower_header_names)

theorem handleCORS_preflight_witness:
  "handleCORS (with_header ((client ''A'')\<lparr>request_method := ''OPTIONS''\<rparr>) ''Origin'' ''https://app.example'')
      ''https://app.example'' =
        \<lparr>isPreflight = True,
         preflightResponse = Some
           \<lparr>status = 204, statusText = '''',
            response_headers =
              [''access-control-allow-origin'' \<mapsto> ''https://app.example'',
               ''access-control-allow-methods'' \<mapsto> ''GET, POST, PUT, DELETE, PATCH, OPTIONS'',
               ''access-control-allow-headers'' \<mapsto> ''Content-Type, Authorization'',
               ''access-control-max-age'' \<mapsto> ''86400'',
               ''access-control-allow-credentials'' \<mapsto> ''true''],
            response_body = NullBody\<rparr>\<rparr>
   \<and> handleCORS ((client ''A'')\<lparr>request_method := ''OPTIONS''\<rparr>) ''https://app.example'' =
        \<lparr>isPreflight = True,
         preflightResponse = Some
           \<lparr>status = 403, statusText = '''',
            response_headers = [''content-type'' \<mapsto> ''text/plain;charset=UTF-8''],
            response_body = TextBody ''Forbidden''\<rparr>\<rparr>
   \<and> handleCORS (client ''A'') ''https://app.example'' = \<lparr>isPreflight = False, preflightResponse = None\<rparr>"
proof (intro conjI)
  let ?ok = "with_header ((client ''A'')\<lparr>request_method := ''OPTIONS''\<rparr>) ''Origin'' ''https://app.example''"
  let ?bad = "(client ''A'')\<lparr>request_method := ''OPTIONS''\<rparr>"
  have a: "request_method ?ok = ''OPTIONS'' \<and> headers_get (request_headers ?ok) ''Origin'' = Some ''https://app.example''"
    by (simp add: client_def with_header_def headers_get_def headers_set_def lower_header_names)
  have b: "request_method ?bad = ''OPTIONS'' \<and> headers_get (request_headers ?bad) ''Origin'' \<noteq> Some ''https://app.example''"
    by (simp add: client_def headers_get_def lower_header_names)
  have c: "request_method (client ''A'') \<noteq> ''OPTIONS''"
    by (simp add: client_def)
  show "handleCORS ?ok ''https://app.example'' =
        \<lparr>isPreflight = True,
         preflightResponse = Some
           \<lparr>status = 204, statusText = '''',
            response_headers =
              [''access-control-allow-origin'' \<mapsto> ''https://app.example'',
               ''access-control-allow-methods'' \<mapsto> ''GET, POST, PUT, DELETE, PATCH, OPTIONS'',
               ''access-control-allow-headers'' \<mapsto> ''Content-Type, Authorization'',
               ''access-control-max-age'' \<mapsto> ''86400'',
               ''access-control-allow-credentials'' \<mapsto> ''true''],
            response_body = NullBody\<rparr>\<rparr>"
    by (rule handleCORS_preflight [THEN conjunct1, THEN mp, OF a])
  show "handleCORS ?bad ''https://app.example'' =
        \<lparr>isPreflight = True,
         preflightResponse = Some
           \<lparr>status = 403, statusText = '''',
            response_headers = [''content-type'' \<mapsto> ''text/plain;charset=UTF-8''],
            response_body = TextBody ''Forbidden''\<rparr>\<rparr>"
    by (rule handleCORS_preflight [THEN conjunct2, THEN conjunct1, THEN mp, OF b])
  show "handleCORS (client ''A'') ''https://app.example'' = \<lparr>isPreflight = False, preflightResponse = None\<rparr>"
    by (rule handleCORS_preflight [THEN conjunct2, THEN conjunct2, THEN mp, OF c])
qed

text \<open>
  C10. When the request's \<^verbatim>\<open>Origin\<close> header equals the allowed origin, \<^verbatim>\<open>addCORSHeaders\<close>
  sets \<^verbatim>\<open>Access-Control-Allow-Origin\<close> to it, \<^verbatim>\<open>Access-Control-Allow-Credentials\<close> to
  \<open>true\<close> and \<^verbatim>\<open>Vary\<close> to \<open>Origin\<close>, and keeps the status, the status text, the body and
  every other header; for any other origin, a missing one included, the response comes
  back as it was.
\<close>

theorem addCORSHeaders_exact:
  "(headers_get (request_headers req) ''Origin'' = Some allowedOrigin \<longrightarrow>
      addCORSHeaders resp req allowedOrigin =
        resp\<lparr>response_headers :=
               (response_headers resp)(''access-control-allow-origin'' \<mapsto> allowedOrigin,
                  ''access-control-allow-credentials'' \<mapsto> ''true'', ''vary'' \<mapsto> ''Origin'')\<rparr>)
   \<and> (headers_get (request_headers req) ''Origin'' \<noteq> Some allowedOrigin \<longrightarrow>
      addCORSHeaders resp req allowedOrigin = resp)"
  by (simp add: addCORSHeaders_def headers_set_def lower_header_names)

theorem addCORSHeaders_exact_witness:
  "addCORSHeaders (downstream_ok (client ''A''))
      (with_header (client ''A'') ''Origin'' ''https://app.example'') ''https://app.example'' =
     (downstream_ok (client ''A''))\<lparr>response_headers :=
        (response_headers (downstream_ok (client ''A'')))
          (''access-control-allow-origin'' \<mapsto> ''https://app.example'',
           ''access-control-allow-credentials'' \<mapsto> ''true'', ''vary'' \<mapsto> ''Origin'')\<rparr>
   \<and> addCORSHeaders (downstream_ok (client ''A'')) (client ''A'') ''https://app.example''
       = downstream_ok (client ''A'')"
proof (intro conjI)
  let ?ok = "with_header (client ''A'') ''Origin'' ''https://app.example''"
  have a: "headers_get (request_headers ?ok) ''Origin'' = Some ''https://app.example''"
    by (simp add: client_def with_header_def headers_get_def headers_set_def lower_header_names)
  have b: "headers_get (request_headers (client ''A'')) ''Origin'' \<noteq> Some ''https://app.example''"
    by (simp add: client_def headers_get_def lower_header_names)
  show "addCORSHeaders (downstream_ok (client ''A'')) ?ok ''https://app.example'' =
     (downstream_ok (client ''A''))\<lparr>response_headers :=
        (response_headers (downstream_ok (client ''A'')))
          (''access-control-allow-origin'' \<mapsto> ''https://app.example'',
           ''access-control-allow-credentials'' \<mapsto> ''true'', ''vary'' \<mapsto> ''Origin'')\<rparr>"
    by (rule addCORSHeaders_exact [THEN conjunct1, THEN mp, OF a])
  show "addCORSHeaders (downstream_ok (client ''A'')) (client ''A'') ''https://app.example''
       = downstream_ok (client ''A'')"
    by (rule addCORSHeaders_exact [THEN conjunct2, THEN mp, OF b])
qed

subsection \<open>The window boundary\<close>

text \<open>
  C4, as the specification states it, fails at the boundary: a request clocked exactly at
  \<open>resetAt\<close> belongs to the old window. With the quota used up it is denied and the
  record stays; with 41 requests counted it becomes the 42nd.
\<close>

theorem isAllowed_at_resetAt_reuses_window:
  "isAllowed (rateLimiter\<lparr>requests := [''A'' \<mapsto> \<lparr>count = 100, resetAt = 60005\<rparr>]\<rparr>) (client ''A'') 60005 =
     (\<lparr>allowed = False, remaining = 0, verdict_resetAt = 60005\<rparr>,
      rateLimiter\<lparr>requests := [''A'' \<mapsto> \<lparr>count = 100, resetAt = 60005\<rparr>]\<rparr>)
   \<and> isAllowed (rateLimiter\<lparr>requests := [''A'' \<mapsto> \<lparr>count = 41, resetAt = 60005\<rparr>]\<rparr>) (client ''A'') 60005 =
     (\<lparr>allowed = True, remaining = 58, verdict_resetAt = 60005\<rparr>,
      rateLimiter\<lparr>requests := [''A'' \<mapsto> \<lparr>count = 42, resetAt = 60005\<rparr>]\<rparr>)"
  by (simp add: isAllowed_def getClientId_client rateLimiter_def new_RateLimiter_def)

text \<open>
  C4, amended. A request clocked strictly after the stored \<open>resetAt\<close> starts a fresh
  window: the record becomes \<open>{count: 1, resetAt: t + windowMs}\<close> and the request is
  admitted. A request clocked exactly at \<open>resetAt\<close> is handled inside the old window: it
  is denied when the count has reached the quota, and counted otherwise.
\<close>

theorem isAllowed_fresh_after_resetAt:
  "(requests this (getClientId req) = Some rec \<and> resetAt rec < t \<longrightarrow>
      isAllowed this req t =
        (\<lparr>allowed = True, remaining = maxRequests this - 1, verdict_resetAt = t + windowMs this\<rparr>,
         this\<lparr>requests := (requests this)(getClientId req \<mapsto>
                  \<lparr>count = 1, resetAt = t + windowMs this\<rparr>)\<rparr>))
   \<and> (requests this (getClientId req) = Some rec \<and> t = resetAt rec \<longrightarrow>
      isAllowed this req t =
        (if count rec \<ge> maxRequests this
         then (\<lparr>allowed = False, remaining = 0, verdict_resetAt = resetAt rec\<rparr>, this)
         else (\<lparr>allowed = True, remaining = maxRequests this - (count rec + 1),
                verdict_resetAt = resetAt rec\<rparr>,
               this\<lparr>requests := (requests this)(getClientId req \<mapsto> rec\<lparr>count := count rec + 1\<rparr>)\<rparr>)))"
  by (simp add: isAllowed_def new_window_def)

theorem isAllowed_fresh_after_resetAt_witness:
  "isAllowed (rateLimiter\<lparr>requests := [''A'' \<mapsto> \<lparr>count = 100, resetAt = 60005\<rparr>]\<rparr>) (client ''A'') 60006 =
     (\<lparr>allowed = True, remaining = 99, verdict_resetAt = 120006\<rparr>,
      rateLimiter\<lparr>requests := [''A'' \<mapsto> \<lparr>count = 1, resetAt = 120006\<rparr>]\<rparr>)
   \<and> isAllowed (rateLimiter\<lparr>requests := [''A'' \<mapsto> \<lparr>count = 41, resetAt = 60005\<rparr>]\<rparr>) (client ''A'') 60005 =
     (\<lparr>allowed = True, remaining = 58, verdict_resetAt = 60005\<rparr>,
      rateLimiter\<lparr>requests := [''A'' \<mapsto> \<lparr>count = 42, resetAt = 60005\<rparr>]\<rparr>)"
  using isAllowed_fresh_after_resetAt
      [of "rateLimiter\<lparr>requests := [''A'' \<mapsto> \<lparr>count = 100, resetAt = 60005\<rparr>]\<rparr>" "client ''A''"
          "\<lparr>count = 100, resetAt = 60005\<rparr>" 60006]
    isAllowed_fresh_after_resetAt
      [of "rateLimiter\<lparr>requests := [''A'' \<mapsto> \<lparr>count = 41, resetAt = 60005\<rparr>]\<rparr>" "client ''A''"
          "\<lparr>count = 41, resetAt = 60005\<rparr>" 60005]
  by (simp add: getClientId_client rateLimiter_def new_RateLimiter_def)

subsection \<open>The arguments of the rate check\<close>

lemma rate_limit_headers_label:
  "rate_limit_headers rt m2 v = (rate_limit_headers rt m1 v)(''x-ratelimit-limit'' \<mapsto> show_int m2)"
  by (rule ext) (simp add: rate_limit_headers_def headers_set_def lower_header_names Let_def)

lemma rate_limit_headers_get:
  "headers_get (rate_limit_headers rt m v) ''X-RateLimit-Limit'' = Some (show_int m)"
  "headers_get (rate_limit_headers rt m v) ''X-RateLimit-Remaining'' = Some (show_int (remaining v))"
  "headers_get (rate_limit_headers rt m v) ''X-RateLimit-Reset'' =
     (if verdict_resetAt v \<noteq> 0 then Some (toISOString rt (verdict_resetAt v)) else None)"
  "headers_get (rate_limit_headers rt m v) ''content-type'' = None"
  by (simp_all add: rate_limit_headers_def headers_get_def headers_set_def lower_header_names Let_def)

lemma Response_json_label:
  "headers_get hs ''content-type'' = None \<Longrightarrow>
   Response_json d st (headers_set (hs(''x-ratelimit-limit'' \<mapsto> x)) ''Retry-After'' y) =
   (Response_json d st (headers_set hs ''Retry-After'' y))
     \<lparr>response_headers := (response_headers (Response_json d st (headers_set hs ''Retry-After'' y)))
        (''x-ratelimit-limit'' \<mapsto> x)\<rparr>"
  by (auto simp add: Response_json_def headers_get_def headers_set_def lower_header_names)

text \<open>A call of \<^verbatim>\<open>checkRateLimit\<close> in terms of the verdict of \<^verbatim>\<open>isAllowed\<close> on the
  module's limiter, after the sweep when it is drawn.\<close>

lemma checkRateLimit_via_verdict:
  "\<exists>v lim. isAllowed (if random rt < 1 / 1000 then cleanup (rateLimiter\<lparr>requests := tbl\<rparr>) (now_cleanup rt)
                       else rateLimiter\<lparr>requests := tbl\<rparr>) req (now_isAllowed rt) = (v, lim)
     \<and> maxRequests lim = 100 \<and> windowMs lim = 60000
     \<and> (\<forall>m w. checkRateLimit rt tbl req m w =
           (\<lparr>rate_allowed = allowed v,
             rate_error =
               (if allowed v then None
                else Some (Response_json
                   [(''error'', ''Too many requests''),
                    (''message'', ''Rate limit exceeded. Please try again later.'')]
                   429
                   (headers_set (rate_limit_headers rt m v) ''Retry-After''
                      (show_int (ceiling (of_int (verdict_resetAt v - now_retry rt) / (1000 :: rat))))))),
             rate_headers = rate_limit_headers rt m v\<rparr>, requests lim))"
  by (auto simp add: checkRateLimit_def Let_def isAllowed_def new_window_def cleanup_def
        rateLimiter_def new_RateLimiter_def split: option.splits prod.splits)

lemma checkRateLimit_fresh_client:
  "tbl (getClientId req) = None \<Longrightarrow>
   snd (checkRateLimit rt tbl req m w) (getClientId req) =
     Some \<lparr>count = 1, resetAt = now_isAllowed rt + 60000\<rparr>"
  by (simp add: checkRateLimit_def Let_def isAllowed_def new_window_def cleanup_def
        rateLimiter_def new_RateLimiter_def split: prod.splits)

lemma checkBodySizeLimit_no_length:
  "headers_get (request_headers req) ''content-length'' = None \<Longrightarrow>
   checkBodySizeLimit req limit = Inr \<lparr>valid = True, body_error = None\<rparr>"
  by (simp add: checkBodySizeLimit_def)

lemma applyMiddleware_fresh_client:
  assumes "headers_get (request_headers req) ''content-length'' = None"
      and "tbl (getClientId req) = None"
  shows "snd (applyMiddleware rt tbl req worker_options) (getClientId req) =
           Some \<lparr>count = 1, resetAt = now_isAllowed rt + 60000\<rparr>"
proof -
  have "snd (applyMiddleware rt tbl req worker_options) = snd (checkRateLimit rt tbl req 100 900000)"
    by (simp add: applyMiddleware_def worker_options_def checkBodySizeLimit_no_length [OF assms(1)]
          split: prod.splits)
  then show ?thesis
    using assms(2) by (simp add: checkRateLimit_fresh_client)
qed

text \<open>
  C3. The arguments \<^verbatim>\<open>maxRequests\<close> and \<^verbatim>\<open>windowMs\<close> of \<^verbatim>\<open>checkRateLimit\<close> decide nothing.
  Two calls on the same request, table and runtime with different arguments leave the same
  table, give the same verdict and the same \<^verbatim>\<open>X-RateLimit-Remaining\<close> and
  \<^verbatim>\<open>X-RateLimit-Reset\<close>; their headers and their 429 responses differ in the text of
  \<^verbatim>\<open>X-RateLimit-Limit\<close> only. The verdict is that of \<^verbatim>\<open>isAllowed\<close> on the module's limiter,
  whose settings are 100 requests and 60000 ms. In particular, under the worker's options
  (a window of 900000 ms) the first request of a client opens a window of 60000 ms.
\<close>

theorem checkRateLimit_arguments_only_label:
  "snd (checkRateLimit rt tbl req m1 w1) = snd (checkRateLimit rt tbl req m2 w2)
   \<and> rate_allowed (fst (checkRateLimit rt tbl req m1 w1)) = rate_allowed (fst (checkRateLimit rt tbl req m2 w2))
   \<and> headers_get (rate_headers (fst (checkRateLimit rt tbl req m1 w1))) ''X-RateLimit-Remaining''
       = headers_get (rate_headers (fst (checkRateLimit rt tbl req m2 w2))) ''X-RateLimit-Remaining''
   \<and> headers_get (rate_headers (fst (checkRateLimit rt tbl req m1 w1))) ''X-RateLimit-Reset''
       = headers_get (rate_headers (fst (checkRateLimit rt tbl req m2 w2))) ''X-RateLimit-Reset''
   \<and> rate_headers (fst (checkRateLimit rt tbl req m2 w2))
       = (rate_headers (fst (checkRateLimit rt tbl req m1 w1)))(''x-ratelimit-limit'' \<mapsto> show_int m2)
   \<and> rate_error (fst (checkRateLimit rt tbl req m2 w2))
       = map_option (\<lambda>r. r\<lparr>response_headers := (response_headers r)(''x-ratelimit-limit'' \<mapsto> show_int m2)\<rparr>)
           (rate_error (fst (checkRateLimit rt tbl req m1 w1)))
   \<and> (\<exists>v lim. isAllowed (if random rt < 1 / 1000
                          then cleanup (rateLimiter\<lparr>requests := tbl\<rparr>) (now_cleanup rt)
                          else rateLimiter\<lparr>requests := tbl\<rparr>) req (now_isAllowed rt) = (v, lim)
         \<and> maxRequests lim = 100 \<and> windowMs lim = 60000
         \<and> (\<forall>m w. snd (checkRateLimit rt tbl req m w) = requests lim
                  \<and> rate_allowed (fst (checkRateLimit rt tbl req m w)) = allowed v
                  \<and> rate_headers (fst (checkRateLimit rt tbl req m w)) = rate_limit_headers rt m v))
   \<and> (headers_get (request_headers req) ''content-length'' = None \<and> tbl (getClientId req) = None \<longrightarrow>
        snd (applyMiddleware rt tbl req worker_options) (getClientId req) =
          Some \<lparr>count = 1, resetAt = now_isAllowed rt + 60000\<rparr>)"
proof -
  obtain v lim where
    run: "isAllowed (if random rt < 1 / 1000
                          then cleanup (rateLimiter\<lparr>requests := tbl\<rparr>) (now_cleanup rt)
                          else rateLimiter\<lparr>requests := tbl\<rparr>) req (now_isAllowed rt) = (v, lim)"
    and cfg: "maxRequests lim = 100" "windowMs lim = 60000"
    and res: "\<And>m w. checkRateLimit rt tbl req m w =
           (\<lparr>rate_allowed = allowed v,
             rate_error =
               (if allowed v then None
                else Some (Response_json
                   [(''error'', ''Too many requests''),
                    (''message'', ''Rate limit exceeded. Please try again later.'')]
                   429
                   (headers_set (rate_limit_headers rt m v) ''Retry-After''
                      (show_int (ceiling (of_int (verdict_resetAt v - now_retry rt) / (1000 :: rat))))))),
             rate_headers = rate_limit_headers rt m v\<rparr>, requests lim)"
    using checkRateLimit_via_verdict [of rt tbl req] by (elim exE conjE) (rule that, assumption+, simp)
  have lab: "rate_limit_headers rt m2 v = (rate_limit_headers rt m1 v)(''x-ratelimit-limit'' \<mapsto> show_int m2)"
    by (rule rate_limit_headers_label)
  have err: "rate_error (fst (checkRateLimit rt tbl req m2 w2))
       = map_option (\<lambda>r. r\<lparr>response_headers := (response_headers r)(''x-ratelimit-limit'' \<mapsto> show_int m2)\<rparr>)
           (rate_error (fst (checkRateLimit rt tbl req m1 w1)))"
    using Response_json_label [OF rate_limit_headers_get(4), of _ _ rt m1 v "show_int m2"]
    by (simp add: res lab)
  have adm: "\<exists>v lim. isAllowed (if random rt < 1 / 1000
                          then cleanup (rateLimiter\<lparr>requests := tbl\<rparr>) (now_cleanup rt)
                          else rateLimiter\<lparr>requests := tbl\<rparr>) req (now_isAllowed rt) = (v, lim)
         \<and> maxRequests lim = 100 \<and> windowMs lim = 60000
         \<and> (\<forall>m w. snd (checkRateLimit rt tbl req m w) = requests lim
                  \<and> rate_allowed (fst (checkRateLimit rt tbl req m w)) = allowed v
                  \<and> rate_headers (fst (checkRateLimit rt tbl req m w)) = rate_limit_headers rt m v)"
    using run cfg by (intro exI [of _ v] exI [of _ lim]) (simp add: res)
  show ?thesis
    using err adm applyMiddleware_fresh_client [of req tbl rt]
    by (simp add: res rate_limit_headers_get lab [symmetric])
qed

theorem checkRateLimit_arguments_only_label_witness:
  "snd (applyMiddleware (runtime_at (1 / 2) 5) Map.empty (client ''A'') worker_options)
     (getClientId (client ''A'')) =
   Some \<lparr>count = 1, resetAt = now_isAllowed (runtime_at (1 / 2) 5) + 60000\<rparr>"
proof -
  have h: "headers_get (request_headers (client ''A'')) ''content-length'' = None
           \<and> (Map.empty :: string \<rightharpoonup> window) (getClientId (client ''A'')) = None"
    by (simp add: client_def headers_get_def lower_header_names)
  show ?thesis
    by (rule checkRateLimit_arguments_only_label
          [where rt = "runtime_at (1 / 2) 5" and tbl = Map.empty and req = "client ''A''",
           THEN conjunct2, THEN conjunct2, THEN conjunct2, THEN conjunct2, THEN conjunct2,
           THEN conjunct2, THEN conjunct2, THEN mp, OF h])
qed

lemma worker_window_example:
  "snd (applyMiddleware (runtime_at (1 / 2) 5) Map.empty (client ''A'') worker_options) ''A'' =
     Some \<lparr>count = 1, resetAt = 60005\<rparr>"
proof -
  have "headers_get (request_headers (client ''A'')) ''content-length'' = None"
    by (simp add: client_def headers_get_def lower_header_names)
  from applyMiddleware_fresh_client [OF this, of Map.empty "runtime_at (1 / 2) 5"]
  show ?thesis
    by (simp add: getClientId_client runtime_at_def)
qed


subsection \<open>The invariant of the counter\<close>

lemma isAllowed_settings:
  "isAllowed this req now = (v, this') \<Longrightarrow>
   maxRequests this' = maxRequests this \<and> windowMs this' = windowMs this"
  by (auto simp add: isAllowed_def new_window_def Let_def split: option.splits if_splits)

lemma isAllowed_bounded:
  assumes m: "1 \<le> maxRequests this" and b: "windows_bounded this"
      and step: "isAllowed this req now = (v, this')"
  shows "windows_bounded this'"
proof (cases "requests this (getClientId req)")
  case None
  with step have "this' = this\<lparr>requests := (requests this)(getClientId req \<mapsto>
      \<lparr>count = 1, resetAt = now + windowMs this\<rparr>)\<rparr>"
    by (simp add: isAllowed_def new_window_def)
  with m b show ?thesis
    by (simp add: windows_bounded_def)
next
  case (Some rec)
  with b have rec: "1 \<le> count rec" "count rec \<le> maxRequests this"
    by (simp_all add: windows_bounded_def)
  consider (fresh) "now > resetAt rec"
    | (denied) "\<not> now > resetAt rec" "count rec \<ge> maxRequests this"
    | (counted) "\<not> now > resetAt rec" "\<not> count rec \<ge> maxRequests this"
    by blast
  then show ?thesis
  proof cases
    case fresh
    with step Some have "this' = this\<lparr>requests := (requests this)(getClientId req \<mapsto>
        \<lparr>count = 1, resetAt = now + windowMs this\<rparr>)\<rparr>"
      by (simp add: isAllowed_def new_window_def)
    with m b show ?thesis
      by (simp add: windows_bounded_def)
  next
    case denied
    with step Some have "this' = this"
      by (simp add: isAllowed_def)
    with b show ?thesis by simp
  next
    case counted
    with step Some have "this' = this\<lparr>requests := (requests this)(getClientId req \<mapsto>
        rec\<lparr>count := count rec + 1\<rparr>)\<rparr>"
      by (simp add: isAllowed_def)
    with b rec counted show ?thesis
      by (simp add: windows_bounded_def)
  qed
qed

lemma isAllowed_remaining:
  assumes "1 \<le> maxRequests this" and "isAllowed this req now = (v, this')" and "allowed v"
  shows "0 \<le> remaining v"
  using assms
  by (auto simp add: isAllowed_def new_window_def Let_def split: option.splits if_splits)

lemma cleanup_bounded:
  "windows_bounded this \<Longrightarrow> windows_bounded (cleanup this now)"
  by (auto simp add: cleanup_def windows_bounded_def split: option.splits if_splits)

lemma cleanup_settings:
  "maxRequests (cleanup this now) = maxRequests this \<and> windowMs (cleanup this now) = windowMs this"
  by (simp add: cleanup_def)

lemma run_bounded:
  assumes "1 \<le> maxRequests this" and "windows_bounded this"
  shows "windows_bounded (snd (run this es)) \<and> maxRequests (snd (run this es)) = maxRequests this
         \<and> (\<forall>v \<in> set (fst (run this es)). allowed v \<longrightarrow> 0 \<le> remaining v)"
  using assms
proof (induction es arbitrary: this)
  case Nil
  then show ?case by simp
next
  case (Cons e es)
  show ?case
  proof (cases e)
    case (Admit req now)
    obtain v this' where step: "isAllowed this req now = (v, this')"
      by (cases "isAllowed this req now")
    have m: "maxRequests this' = maxRequests this"
      using isAllowed_settings [OF step] by simp
    have b: "windows_bounded this'"
      by (rule isAllowed_bounded [OF Cons.prems step])
    have r: "allowed v \<longrightarrow> 0 \<le> remaining v"
      using isAllowed_remaining [OF Cons.prems(1) step] by simp
    from Cons.IH [of this'] m b Cons.prems(1) r show ?thesis
      by (simp add: Admit step split_beta)
  next
    case (Sweep now)
    from Cons.IH [of "cleanup this now"] cleanup_bounded [OF Cons.prems(2)] Cons.prems(1)
    show ?thesis
      by (simp add: Sweep cleanup_settings)
  qed
qed

lemma new_RateLimiter_bounded: "windows_bounded (new_RateLimiter m w)"
  by (simp add: windows_bounded_def new_RateLimiter_def)

text \<open>Two admitted requests of one client in one window: whatever happens in between
  that leaves the client's record alone, the second verdict has one request less left.\<close>

lemma isAllowed_successive:
  assumes "isAllowed this req1 t1 = (v1, this1)" and "allowed v1"
      and "tbl (getClientId req1) = requests this1 (getClientId req1)"
      and "getClientId req2 = getClientId req1"
      and "t2 \<le> verdict_resetAt v1"
      and "isAllowed (this1\<lparr>requests := tbl\<rparr>) req2 t2 = (v2, this2)" and "allowed v2"
  shows "remaining v2 = remaining v1 - 1 \<and> 0 \<le> remaining v2 \<and> verdict_resetAt v2 = verdict_resetAt v1"
  using assms
  by (auto simp add: isAllowed_def new_window_def Let_def split: option.splits if_splits)

text \<open>The scenario of the specification: a quota of 2 in a window of 1000 ms, three
  requests within 500 ms and a fourth after the window.\<close>

lemma example_run:
  "run (new_RateLimiter 2 1000)
     [Admit (client ''A'') 0, Admit (client ''A'') 100, Admit (client ''A'') 200, Admit (client ''A'') 1101] =
   ([\<lparr>allowed = True, remaining = 1, verdict_resetAt = 1000\<rparr>,
     \<lparr>allowed = True, remaining = 0, verdict_resetAt = 1000\<rparr>,
     \<lparr>allowed = False, remaining = 0, verdict_resetAt = 1000\<rparr>,
     \<lparr>allowed = True, remaining = 1, verdict_resetAt = 2101\<rparr>],
    (new_RateLimiter 2 1000)\<lparr>requests := [''A'' \<mapsto> \<lparr>count = 1, resetAt = 2101\<rparr>]\<rparr>)"
  by (simp add: isAllowed_def new_window_def getClientId_client new_RateLimiter_def)

text \<open>
  C5. Let the quota be at least one (the module's limiter has 100). After any sequence of
  calls of \<^verbatim>\<open>isAllowed\<close> and \<^verbatim>\<open>cleanup\<close> on a new limiter, every stored count is at most
  the quota, and every admitted request was told a \<open>remaining\<close> that is not negative.
  For two admitted requests of one client, the second clocked no later than the
  \<open>resetAt\<close> of the first and the client's record untouched in between, the second
  \<open>remaining\<close> is the first minus one, and not negative.
\<close>

theorem count_bounded_remaining_decreases:
  assumes "1 \<le> maxRequestsArg"
  shows "(\<forall>c rec. requests (snd (run (new_RateLimiter maxRequestsArg windowMsArg) es)) c = Some rec
            \<longrightarrow> count rec \<le> maxRequestsArg)
       \<and> (\<forall>v \<in> set (fst (run (new_RateLimiter maxRequestsArg windowMsArg) es)).
            allowed v \<longrightarrow> 0 \<le> remaining v)
       \<and> (\<forall>this req1 t1 v1 this1 tbl req2 t2 v2 this2.
            isAllowed this req1 t1 = (v1, this1) \<and> allowed v1
            \<and> tbl (getClientId req1) = requests this1 (getClientId req1)
            \<and> getClientId req2 = getClientId req1 \<and> t2 \<le> verdict_resetAt v1
            \<and> isAllowed (this1\<lparr>requests := tbl\<rparr>) req2 t2 = (v2, this2) \<and> allowed v2
            \<longrightarrow> remaining v2 = remaining v1 - 1 \<and> 0 \<le> remaining v2)"
proof -
  have m: "1 \<le> maxRequests (new_RateLimiter maxRequestsArg windowMsArg)"
    using assms by (simp add: new_RateLimiter_def)
  have eq: "maxRequests (new_RateLimiter maxRequestsArg windowMsArg) = maxRequestsArg"
    by (simp add: new_RateLimiter_def)
  note rb = run_bounded [OF m new_RateLimiter_bounded, of es, unfolded eq]
  have a: "\<forall>c rec. requests (snd (run (new_RateLimiter maxRequestsArg windowMsArg) es)) c = Some rec
            \<longrightarrow> count rec \<le> maxRequestsArg"
    using rb by (auto simp add: windows_bounded_def)
  have b: "\<forall>v \<in> set (fst (run (new_RateLimiter maxRequestsArg windowMsArg) es)).
            allowed v \<longrightarrow> 0 \<le> remaining v"
    using rb by simp
  have c: "\<forall>this req1 t1 v1 this1 tbl req2 t2 v2 this2.
            isAllowed this req1 t1 = (v1, this1) \<and> allowed v1
            \<and> tbl (getClientId req1) = requests this1 (getClientId req1)
            \<and> getClientId req2 = getClientId req1 \<and> t2 \<le> verdict_resetAt v1
            \<and> isAllowed (this1\<lparr>requests := tbl\<rparr>) req2 t2 = (v2, this2) \<and> allowed v2
            \<longrightarrow> remaining v2 = remaining v1 - 1 \<and> 0 \<le> remaining v2"
    using isAllowed_successive by blast
  from a b c show ?thesis by (intro conjI)
qed

theorem count_bounded_remaining_decreases_witness:
  "count \<lparr>count = 1, resetAt = 2101\<rparr> \<le> (2 :: int)
   \<and> 0 \<le> remaining \<lparr>allowed = True, remaining = 0, verdict_resetAt = 1000\<rparr>
   \<and> remaining \<lparr>allowed = True, remaining = 0, verdict_resetAt = 1000\<rparr>
       = remaining \<lparr>allowed = True, remaining = 1, verdict_resetAt = 1000\<rparr> - 1"
proof -
  let ?evs = "[Admit (client ''A'') 0, Admit (client ''A'') 100, Admit (client ''A'') 200,
               Admit (client ''A'') 1101]"
  let ?lim = "new_RateLimiter 2 1000"
  let ?lim1 = "?lim\<lparr>requests := [''A'' \<mapsto> \<lparr>count = 1, resetAt = 1000\<rparr>]\<rparr>"
  let ?lim2 = "?lim\<lparr>requests := [''A'' \<mapsto> \<lparr>count = 2, resetAt = 1000\<rparr>]\<rparr>"
  have h: "(1 :: int) \<le> 2" by simp
  note t = count_bounded_remaining_decreases [OF h, of 1000 ?evs]
  have stored: "requests (snd (run ?lim ?evs)) ''A'' = Some \<lparr>count = 1, resetAt = 2101\<rparr>"
    unfolding example_run by simp
  have told: "\<lparr>allowed = True, remaining = 0, verdict_resetAt = 1000\<rparr> \<in> set (fst (run ?lim ?evs))"
    unfolding example_run by simp
  have first: "isAllowed ?lim (client ''A'') 0 =
      (\<lparr>allowed = True, remaining = 1, verdict_resetAt = 1000\<rparr>, ?lim1)"
    by (simp add: isAllowed_def new_window_def getClientId_client new_RateLimiter_def)
  have second: "isAllowed (?lim1\<lparr>requests := requests ?lim1\<rparr>) (client ''A'') 100 =
      (\<lparr>allowed = True, remaining = 0, verdict_resetAt = 1000\<rparr>, ?lim2)"
    by (simp add: isAllowed_def new_window_def getClientId_client new_RateLimiter_def)
  have a: "count \<lparr>count = 1, resetAt = 2101\<rparr> \<le> (2 :: int)"
    by (rule t [THEN conjunct1, rule_format, OF stored])
  have b: "0 \<le> remaining \<lparr>allowed = True, remaining = 0, verdict_resetAt = 1000\<rparr>"
    using t [THEN conjunct2, THEN conjunct1, rule_format, OF told] by simp
  have c: "remaining \<lparr>allowed = True, remaining = 0, verdict_resetAt = 1000\<rparr>
       = remaining \<lparr>allowed = True, remaining = 1, verdict_resetAt = 1000\<rparr> - 1"
    using t [THEN conjunct2, THEN conjunct2, rule_format,
        of ?lim "client ''A''" 0 "\<lparr>allowed = True, remaining = 1, verdict_resetAt = 1000\<rparr>" ?lim1
           "requests ?lim1" "client ''A''" 100
           "\<lparr>allowed = True, remaining = 0, verdict_resetAt = 1000\<rparr>" ?lim2]
      first second
    by simp
  from a b c show ?thesis by (intro conjI)
qed


subsection \<open>Isolation of clients\<close>

lemma isAllowed_other_client:
  "getClientId req \<noteq> b \<Longrightarrow> requests (snd (isAllowed this req now)) b = requests this b"
  by (simp add: isAllowed_def new_window_def Let_def split: option.splits)

lemma cleanup_entry:
  "requests (cleanup this now) b =
     (case requests this b of
        None \<Rightarrow> None
      | Some rec \<Rightarrow> if now > resetAt rec then None else Some rec)"
  by (simp add: cleanup_def)

lemma checkRateLimit_other_client:
  assumes "getClientId req \<noteq> b"
  shows "snd (checkRateLimit rt tbl req m w) b =
     (if random rt < 1 / 1000
      then (case tbl b of
              None \<Rightarrow> None
            | Some rec \<Rightarrow> if now_cleanup rt > resetAt rec then None else Some rec)
      else tbl b)"
proof -
  have "snd (checkRateLimit rt tbl req m w) =
          requests (snd (isAllowed (if random rt < 1 / 1000
                                     then cleanup (rateLimiter\<lparr>requests := tbl\<rparr>) (now_cleanup rt)
                                     else rateLimiter\<lparr>requests := tbl\<rparr>) req (now_isAllowed rt)))"
    by (simp add: checkRateLimit_def Let_def split_beta)
  then show ?thesis
    using assms by (simp add: isAllowed_other_client cleanup_entry)
qed

text \<open>What a call of \<^verbatim>\<open>checkRateLimit\<close> returns, and the record it leaves for its own
  client, depend on the table through that client's record only; and a record whose
  window has passed counts as no record.\<close>

lemma checkRateLimit_local:
  assumes "tbl1 (getClientId req) = tbl2 (getClientId req)
           \<or> (tbl1 (getClientId req) = None
               \<and> (\<exists>rec. tbl2 (getClientId req) = Some rec \<and> resetAt rec < now_isAllowed rt))"
  shows "fst (checkRateLimit rt tbl1 req m w) = fst (checkRateLimit rt tbl2 req m w)
       \<and> snd (checkRateLimit rt tbl1 req m w) (getClientId req)
           = snd (checkRateLimit rt tbl2 req m w) (getClientId req)"
  using assms
  by (auto simp add: checkRateLimit_def Let_def isAllowed_def new_window_def cleanup_def
        rateLimiter_def new_RateLimiter_def split: option.splits)
     (rule exI, erule sym)

lemma serve_other_clients:
  assumes "\<forall>e \<in> set es. getClientId (snd e) \<noteq> b"
  shows "serve m w tbl es b = tbl b
         \<or> (serve m w tbl es b = None
             \<and> (\<exists>rec. tbl b = Some rec
                  \<and> (\<exists>e \<in> set es. random (fst e) < 1 / 1000 \<and> now_cleanup (fst e) > resetAt rec)))"
  using assms
proof (induction es arbitrary: tbl)
  case Nil
  then show ?case by simp
next
  case (Cons e es)
  obtain rt req where e: "e = (rt, req)" by (cases e)
  let ?tbl = "snd (checkRateLimit rt tbl req m w)"
  from Cons.prems e have other: "getClientId req \<noteq> b" and rest: "\<forall>e \<in> set es. getClientId (snd e) \<noteq> b"
    by simp_all
  note step = checkRateLimit_other_client [OF other, of rt tbl m w]
  from Cons.IH [OF rest, of ?tbl]
  show ?case
  proof
    assume same: "serve m w ?tbl es b = ?tbl b"
    show ?thesis
    proof (cases "?tbl b = tbl b")
      case True
      with same show ?thesis by (simp add: e)
    next
      case False
      with step obtain rec where "tbl b = Some rec" "random rt < 1 / 1000" "now_cleanup rt > resetAt rec"
        "?tbl b = None"
        by (auto split: if_splits option.splits)
      with same show ?thesis by (auto simp add: e)
    qed
  next
    assume gone: "serve m w ?tbl es b = None
             \<and> (\<exists>rec. ?tbl b = Some rec
                  \<and> (\<exists>e \<in> set es. random (fst e) < 1 / 1000 \<and> now_cleanup (fst e) > resetAt rec))"
    then obtain rec where rec: "?tbl b = Some rec"
      and sw: "\<exists>e \<in> set es. random (fst e) < 1 / 1000 \<and> now_cleanup (fst e) > resetAt rec"
      by blast
    from rec step have "tbl b = Some rec"
      by (auto split: if_splits option.splits)
    with gone sw show ?thesis by (auto simp add: e)
  qed
qed

text \<open>
  C6, as the specification states it, fails where requests go through \<^verbatim>\<open>checkRateLimit\<close>:
  when the sweep is drawn during a request of client \<open>A\<close>, the record of client \<open>B\<close>,
  whose window has passed, is deleted.
\<close>

theorem sweep_deletes_other_client:
  "snd (checkRateLimit (runtime_at 0 70000) [''B'' \<mapsto> \<lparr>count = 5, resetAt = 60005\<rparr>] (client ''A'') 100 60000) ''B''
     = None"
  by (simp add: checkRateLimit_other_client getClientId_client runtime_at_def)

text \<open>
  C6, amended. Let \<open>A\<close> and \<open>B\<close> be distinct clients. A call of \<^verbatim>\<open>isAllowed\<close> for \<open>A\<close>
  leaves the record of \<open>B\<close> as it was. A call of \<^verbatim>\<open>checkRateLimit\<close> for \<open>A\<close> leaves it as
  it was, unless the sweep is drawn and the window of \<open>B\<close> has passed at the time of the
  sweep; then the record is deleted. After any sequence of such calls the record of \<open>B\<close>
  is the one before, or it is deleted and its window had passed at one of the sweeps. The
  next call of \<^verbatim>\<open>checkRateLimit\<close> for \<open>B\<close>, clocked no earlier than those sweeps, returns
  what it would have returned without the calls for \<open>A\<close>, and leaves the same record.
\<close>

theorem other_clients_only_sweep:
  "(getClientId reqA \<noteq> b \<longrightarrow> requests (snd (isAllowed this reqA now)) b = requests this b)
   \<and> (getClientId reqA \<noteq> b \<longrightarrow>
        snd (checkRateLimit rt tbl reqA m w) b =
          (if random rt < 1 / 1000
           then (case tbl b of
                   None \<Rightarrow> None
                 | Some rec \<Rightarrow> if now_cleanup rt > resetAt rec then None else Some rec)
           else tbl b))
   \<and> ((\<forall>e \<in> set es. getClientId (snd e) \<noteq> b) \<longrightarrow>
        serve m w tbl es b = tbl b
        \<or> (serve m w tbl es b = None
            \<and> (\<exists>rec. tbl b = Some rec
                 \<and> (\<exists>e \<in> set es. random (fst e) < 1 / 1000 \<and> now_cleanup (fst e) > resetAt rec))))
   \<and> ((\<forall>e \<in> set es. getClientId (snd e) \<noteq> b
                     \<and> (random (fst e) < 1 / 1000 \<longrightarrow> now_cleanup (fst e) \<le> now_isAllowed rtB))
        \<and> getClientId reqB = b \<longrightarrow>
        fst (checkRateLimit rtB (serve m w tbl es) reqB m' w') = fst (checkRateLimit rtB tbl reqB m' w')
        \<and> snd (checkRateLimit rtB (serve m w tbl es) reqB m' w') b
            = snd (checkRateLimit rtB tbl reqB m' w') b)"
proof (intro conjI)
  show "getClientId reqA \<noteq> b \<longrightarrow> requests (snd (isAllowed this reqA now)) b = requests this b"
    by (simp add: isAllowed_other_client)
  show "getClientId reqA \<noteq> b \<longrightarrow>
        snd (checkRateLimit rt tbl reqA m w) b =
          (if random rt < 1 / 1000
           then (case tbl b of
                   None \<Rightarrow> None
                 | Some rec \<Rightarrow> if now_cleanup rt > resetAt rec then None else Some rec)
           else tbl b)"
    using checkRateLimit_other_client [of reqA b rt tbl m w] by blast
  show "(\<forall>e \<in> set es. getClientId (snd e) \<noteq> b) \<longrightarrow>
        serve m w tbl es b = tbl b
        \<or> (serve m w tbl es b = None
            \<and> (\<exists>rec. tbl b = Some rec
                 \<and> (\<exists>e \<in> set es. random (fst e) < 1 / 1000 \<and> now_cleanup (fst e) > resetAt rec)))"
    using serve_other_clients [of es b m w tbl] by blast
  show "(\<forall>e \<in> set es. getClientId (snd e) \<noteq> b
                     \<and> (random (fst e) < 1 / 1000 \<longrightarrow> now_cleanup (fst e) \<le> now_isAllowed rtB))
        \<and> getClientId reqB = b \<longrightarrow>
        fst (checkRateLimit rtB (serve m w tbl es) reqB m' w') = fst (checkRateLimit rtB tbl reqB m' w')
        \<and> snd (checkRateLimit rtB (serve m w tbl es) reqB m' w') b
            = snd (checkRateLimit rtB tbl reqB m' w') b"
  proof
    assume h: "(\<forall>e \<in> set es. getClientId (snd e) \<noteq> b
                     \<and> (random (fst e) < 1 / 1000 \<longrightarrow> now_cleanup (fst e) \<le> now_isAllowed rtB))
        \<and> getClientId reqB = b"
    then have others: "\<forall>e \<in> set es. getClientId (snd e) \<noteq> b"
      and clock: "\<forall>e \<in> set es. random (fst e) < 1 / 1000 \<longrightarrow> now_cleanup (fst e) \<le> now_isAllowed rtB"
      and b: "getClientId reqB = b"
      by simp_all
    have "serve m w tbl es (getClientId reqB) = tbl (getClientId reqB)
          \<or> (serve m w tbl es (getClientId reqB) = None
              \<and> (\<exists>rec. tbl (getClientId reqB) = Some rec \<and> resetAt rec < now_isAllowed rtB))"
      using serve_other_clients [OF others, of m w tbl] clock unfolding b
      by force
    from checkRateLimit_local [of "serve m w tbl es" reqB tbl rtB m' w', OF this]
    show "fst (checkRateLimit rtB (serve m w tbl es) reqB m' w') = fst (checkRateLimit rtB tbl reqB m' w')
          \<and> snd (checkRateLimit rtB (serve m w tbl es) reqB m' w') b
              = snd (checkRateLimit rtB tbl reqB m' w') b"
      by (simp add: b)
  qed
qed

theorem other_clients_only_sweep_witness:
  "requests (snd (isAllowed (rateLimiter\<lparr>requests := [''B'' \<mapsto> \<lparr>count = 5, resetAt = 60005\<rparr>]\<rparr>)
       (client ''A'') 7)) ''B''
     = requests (rateLimiter\<lparr>requests := [''B'' \<mapsto> \<lparr>count = 5, resetAt = 60005\<rparr>]\<rparr>) ''B''
   \<and> fst (checkRateLimit (runtime_at (1 / 2) 70001)
            (serve 100 900000 [''B'' \<mapsto> \<lparr>count = 5, resetAt = 60005\<rparr>]
               [(runtime_at 0 70000, client ''A'')])
            (client ''B'') 100 900000)
       = fst (checkRateLimit (runtime_at (1 / 2) 70001) [''B'' \<mapsto> \<lparr>count = 5, resetAt = 60005\<rparr>]
            (client ''B'') 100 900000)"
proof (intro conjI)
  let ?tbl = "[''B'' \<mapsto> \<lparr>count = 5, resetAt = 60005\<rparr>]"
  let ?es = "[(runtime_at 0 70000, client ''A'')]"
  have h1: "getClientId (client ''A'') \<noteq> ''B''"
    by (simp add: getClientId_client)
  have h4: "(\<forall>e \<in> set ?es. getClientId (snd e) \<noteq> ''B''
               \<and> (random (fst e) < 1 / 1000 \<longrightarrow> now_cleanup (fst e) \<le> now_isAllowed (runtime_at (1 / 2) 70001)))
            \<and> getClientId (client ''B'') = ''B''"
    by (simp add: getClientId_client runtime_at_def)
  show "requests (snd (isAllowed (rateLimiter\<lparr>requests := ?tbl\<rparr>) (client ''A'') 7)) ''B''
     = requests (rateLimiter\<lparr>requests := ?tbl\<rparr>) ''B''"
    by (rule other_clients_only_sweep [THEN conjunct1, THEN mp, OF h1])
  show "fst (checkRateLimit (runtime_at (1 / 2) 70001) (serve 100 900000 ?tbl ?es) (client ''B'') 100 900000)
       = fst (checkRateLimit (runtime_at (1 / 2) 70001) ?tbl (client ''B'') 100 900000)"
    by (rule other_clients_only_sweep
          [THEN conjunct2, THEN conjunct2, THEN conjunct2, THEN mp, OF h4, THEN conjunct1])
qed


subsection \<open>Reading and printing numbers\<close>

lemma digit_chars:
  "digit_char 0 = CHR ''0''" "digit_char (Suc 0) = CHR ''1''" "digit_char 1 = CHR ''1''"
  "digit_char 2 = CHR ''2''" "digit_char 3 = CHR ''3''" "digit_char 4 = CHR ''4''"
  "digit_char 5 = CHR ''5''" "digit_char 6 = CHR ''6''" "digit_char 7 = CHR ''7''"
  "digit_char 8 = CHR ''8''" "digit_char 9 = CHR ''9''"
  by code_simp+

lemmas number_eval = round_double_def ilog2_def bit_length.simps round_half_even_def
  Let_def reads_as_def shortest.simps show_integer_def show_nat.simps num_digits.simps digit_chars
  digits_val_def digit_val_def

text \<open>A natural number that needs at most 53 binary digits, or whose digits beyond the
  53rd are zeros, is a double: rounding returns it.\<close>

lemma bit_length_le: "n < 2 ^ t \<Longrightarrow> bit_length n \<le> t"
proof (induction t arbitrary: n)
  case 0
  then show ?case by (simp add: bit_length.simps)
next
  case (Suc t)
  then have "n div 2 < 2 ^ t" by auto
  from Suc.IH [OF this] show ?case
    by (subst bit_length.simps) simp
qed



lemma round_half_even_exact: "0 < b \<Longrightarrow> round_half_even (c * b) b = c"
  by (simp add: round_half_even_def)


lemma round_double_exact:
  assumes pos: "0 < N" and fin: "N < 2 ^ 1024"
      and fits: "53 < bit_length N \<longrightarrow> 2 ^ (bit_length N - 53) dvd N"
  shows "round_double (N * 2 ^ j) (2 ^ j) =
           Finite (if 53 \<le> bit_length N then N div 2 ^ (bit_length N - 53)
                   else N * 2 ^ (53 - bit_length N))
                  (int (bit_length N) - 53)"
proof -
  let ?bl = "bit_length N"
  have nz: "N * 2 ^ j \<noteq> 0" using pos by simp
  have e: "ilog2 (N * 2 ^ j) (2 ^ j) = int ?bl - 1"
    using pos by (simp add: ilog2_def)
  have q: "max (ilog2 (N * 2 ^ j) (2 ^ j) - 52) (- 1074) = int ?bl - 53"
    unfolding e by simp
  show ?thesis
  proof (cases "53 \<le> ?bl")
    case True
    define s where "s = ?bl - 53"
    have dv: "2 ^ s dvd N"
    proof (cases "53 < ?bl")
      case True
      with fits show ?thesis by (simp add: s_def)
    next
      case False
      with \<open>53 \<le> ?bl\<close> have "s = 0" by (simp add: s_def)
      then show ?thesis by simp
    qed
    then obtain c where c: "N = c * 2 ^ s"
      by (auto simp add: dvd_def mult.commute)
    have nq: "nat (int ?bl - 53) = s" and q0: "0 \<le> int ?bl - 53"
      using True by (simp_all add: s_def)
    have r: "round_half_even (c * (2 ^ j * 2 ^ s)) (2 ^ j * 2 ^ s) = c"
      by (rule round_half_even_exact) simp
    have "N * 2 ^ j = c * (2 ^ j * 2 ^ s)"
      by (subst c) (simp add: mult_ac)
    then have m: "round_half_even (N * 2 ^ j) (2 ^ j * 2 ^ s) = c"
      by (simp only: r)
    have "N div 2 ^ s = c * 2 ^ s div 2 ^ s"
      by (subst c) simp
    then have d: "N div 2 ^ s = c"
      by simp
    have "c * 2 ^ s = N"
      by (rule c [symmetric])
    then have nov: "\<not> (2 :: nat) ^ 1024 \<le> c * 2 ^ s"
      using fin by simp
    have t: "53 \<le> ?bl" by (rule True)
    have "round_double (N * 2 ^ j) (2 ^ j) = Finite c (int ?bl - 53)"
      unfolding round_double_def Let_def q
      using nz nov by (simp only: q0 nq m if_True if_False simp_thms)
    then show ?thesis
      using t d by (simp add: s_def)
  next
    case False
    let ?s = "53 - ?bl"
    have nq: "nat (- (int ?bl - 53)) = ?s" and q0: "\<not> 0 \<le> int ?bl - 53"
      using False by simp_all
    have m: "round_half_even (N * 2 ^ j * 2 ^ ?s) (2 ^ j) = N * 2 ^ ?s"
      using round_half_even_exact [of "2 ^ j" "N * 2 ^ ?s"] by (simp add: mult_ac)
    show ?thesis
      unfolding round_double_def Let_def q
      using nz False by (simp only: q0 nq m if_True if_False simp_thms)
  qed
qed

lemma js_floor_exact:
  assumes "53 < bit_length N \<longrightarrow> 2 ^ (bit_length N - 53) dvd N"
  shows "js_floor (Finite (if 53 \<le> bit_length N then N div 2 ^ (bit_length N - 53)
                           else N * 2 ^ (53 - bit_length N))
                          (int (bit_length N) - 53)) = Num (int N)"
proof (cases "53 \<le> bit_length N")
  case True
  have "2 ^ (bit_length N - 53) dvd N"
  proof (cases "53 < bit_length N")
    case True
    with assms show ?thesis by simp
  next
    case False
    with \<open>53 \<le> bit_length N\<close> have "bit_length N - 53 = 0" by simp
    then show ?thesis by simp
  qed
  then have "N div 2 ^ (bit_length N - 53) * 2 ^ (bit_length N - 53) = N"
    by simp
  then have "int (N div 2 ^ (bit_length N - 53) * 2 ^ (bit_length N - 53)) = int N"
    by simp
  moreover have "nat (int (bit_length N) - 53) = bit_length N - 53"
    by simp
  ultimately show ?thesis
    using True by simp
next
  case False
  then have "nat (- (int (bit_length N) - 53)) = 53 - bit_length N" by simp
  with False show ?thesis by simp
qed

lemma power_of_two_fits:
  assumes "n < 2 ^ 53"
  shows "53 < bit_length (n * 2 ^ k) \<longrightarrow> 2 ^ (bit_length (n * 2 ^ k) - 53) dvd n * 2 ^ k"
proof
  assume "53 < bit_length (n * 2 ^ k)"
  have "n * 2 ^ k < 2 ^ (53 + k)"
    using assms by (simp add: power_add)
  then have "bit_length (n * 2 ^ k) \<le> 53 + k"
    by (rule bit_length_le)
  then have "bit_length (n * 2 ^ k) - 53 \<le> k" by simp
  then have "(2 :: nat) ^ (bit_length (n * 2 ^ k) - 53) dvd 2 ^ k"
    by (rule le_imp_power_dvd)
  then show "2 ^ (bit_length (n * 2 ^ k) - 53) dvd n * 2 ^ k"
    by (rule dvd_mult)
qed

text \<open>An integer below \<open>2 ^ 53\<close> is read exactly, and so is its product with a power of
  two.\<close>

lemma round_double_small:
  assumes "0 < n" and "n < 2 ^ 53"
  shows "round_double n 1 =
      Finite (if 53 \<le> bit_length n then n div 2 ^ (bit_length n - 53)
              else n * 2 ^ (53 - bit_length n)) (int (bit_length n) - 53)"
proof -
  have small: "n < 2 ^ 1024"
    using assms(2) by (rule less_le_trans) simp
  have fit0: "53 < bit_length n \<longrightarrow> 2 ^ (bit_length n - 53) dvd n"
    using bit_length_le [OF assms(2)] by simp
  show ?thesis
    using round_double_exact [OF assms(1) small fit0, of 0] by simp
qed


lemma js_floor_times_exact:
  assumes n: "n < 2 ^ 53" and k: "k \<le> 900"
  shows "js_floor (js_times (round_double n 1) (2 ^ k)) = Num (int (n * 2 ^ k))"
proof (cases "n = 0")
  case True
  then show ?thesis
    by (simp add: round_double_def)
next
  case False
  then have pos: "0 < n" by simp
  have bl: "bit_length n \<le> 53"
    using bit_length_le [OF n] .
  let ?N = "n * 2 ^ k"
  have posN: "0 < ?N" using pos by simp
  have "?N < 2 ^ 53 * 2 ^ k" using n by simp
  also have "\<dots> = 2 ^ (53 + k)" by (simp add: power_add)
  also have "\<dots> \<le> 2 ^ 1024" using k by (intro power_increasing) simp_all
  finally have finN: "?N < 2 ^ 1024" .
  note fitN = power_of_two_fits [OF n, of k]
  note first = round_double_small [OF pos n]
  show ?thesis
  proof (cases "53 \<le> bit_length n")
    case True
    with bl have b53: "bit_length n = 53" by simp
    have "js_times (round_double n 1) (2 ^ k) = round_double (?N * 2 ^ 0) (2 ^ 0)"
      unfolding first by (simp add: b53)
    also have "js_floor \<dots> = Num (int ?N)"
      unfolding round_double_exact [OF posN finN fitN, of 0] by (rule js_floor_exact [OF fitN])
    finally show ?thesis .
  next
    case False
    let ?s = "53 - bit_length n"
    have ns: "nat (- (int (bit_length n) - 53)) = ?s" "nat (53 - int (bit_length n)) = ?s"
      using False by simp_all
    have "js_times (round_double n 1) (2 ^ k) = round_double (?N * 2 ^ ?s) (2 ^ ?s)"
      unfolding first using False by (simp add: ns mult_ac)
    also have "js_floor \<dots> = Num (int ?N)"
      unfolding round_double_exact [OF posN finN fitN, of ?s] by (rule js_floor_exact [OF fitN])
    finally show ?thesis .
  qed
qed











subsection \<open>The body size limit\<close>

lemma lower_examples:
  "toLowerCase ''1kb'' = ''1kb''"
  "toLowerCase ''10mb'' = ''10mb''"
  "toLowerCase ''512'' = ''512''"
  "toLowerCase ''10MB'' = ''10mb''"
  "toLowerCase ''1.5 Kb'' = ''1.5 kb''"
  "toLowerCase ''0.1kb'' = ''0.1kb''"
  "toLowerCase ''10tb'' = ''10tb''"
  "toLowerCase ''10pb'' = ''10pb''"
  "toLowerCase ''10constructor'' = ''10constructor''"
  "toLowerCase ''abc'' = ''abc''"
  "toLowerCase ''ten'' = ''ten''"
  "toLowerCase ''10 mb '' = ''10 mb ''"
  "toLowerCase '''' = ''''"
  "toLowerCase ''9007199254740993'' = ''9007199254740993''"
  "toLowerCase ''1.9999999999999999999'' = ''1.9999999999999999999''"
  by code_simp+

lemmas parseSize_eval = parseSize_def size_match_def match_tail_def lower_examples is_space_def
  is_digit_def is_lower_def parseFloat_def units_def

lemma parseSize_examples:
  "parseSize ''1kb'' = Inr (Num 1024)"
  "parseSize ''10mb'' = Inr (Num 10485760)"
  "parseSize ''512'' = Inr (Num 512)"
  "parseSize ''10MB'' = Inr (Num 10485760)"
  "parseSize ''1.5 Kb'' = Inr (Num 1536)"
  "parseSize ''0.1kb'' = Inr (Num 102)"
  "parseSize ''10tb'' = Inr (Num 10)"
  "parseSize ''abc'' = Inl (InvalidSizeFormat ''abc'')"
  "parseSize ''ten'' = Inl (InvalidSizeFormat ''ten'')"
  "parseSize ''10 mb '' = Inl (InvalidSizeFormat ''10 mb '')"
  "parseSize '''' = Inl (InvalidSizeFormat '''')"
  by (simp add: parseSize_eval number_eval)+

text \<open>The lookup in the table of units finds \<^verbatim>\<open>constructor\<close> on the prototype of the
  object, a slip of the code; the statements below leave that unit name aside.\<close>

lemma parseSize_constructor: "parseSize ''10constructor'' = Inr NaN"
  by (simp add: parseSize_eval)

text \<open>Beyond 53 binary digits a numeral is rounded: \<^verbatim>\<open>9007199254740993\<close> is read as
  \<^verbatim>\<open>9007199254740992\<close>, and \<^verbatim>\<open>1.9999999999999999999\<close> as 2 before the floor is taken.\<close>

lemma rounding_examples:
  "parseInt ''9007199254740993'' = Num 9007199254740992"
  "parseSize ''9007199254740993'' = Inr (Num 9007199254740992)"
  "parseSize ''1.9999999999999999999'' = Inr (Num 2)"
  by (simp add: parseInt_def parseSize_eval number_eval)+




lemma checkBodySizeLimit_parsed:
  assumes "parseSize limit = Inr (Num L)"
  shows "checkBodySizeLimit req limit =
     (case headers_get (request_headers req) ''content-length'' of
        None \<Rightarrow> Inr \<lparr>valid = True, body_error = None\<rparr>
      | Some cl \<Rightarrow>
          if cl \<noteq> [] \<and> (parseInt cl = PosInf \<or> (\<exists>n. parseInt cl = Num n \<and> L < n))
          then Inr \<lparr>valid = False,
                    body_error = Some
                      \<lparr>status = 413, statusText = '''',
                       response_headers = [''content-type'' \<mapsto> ''application/json''],
                       response_body = JsonBody
                         [(''error'', ''Payload too large''),
                          (''message'', ''Request body size ('' @ show_jsnum (parseInt cl)
                             @ '' bytes) exceeds limit ('' @ show_jsnum (Num L) @ '' bytes)'')]\<rparr>\<rparr>
          else Inr \<lparr>valid = True, body_error = None\<rparr>)"
proof (cases "headers_get (request_headers req) ''content-length''")
  case None
  then show ?thesis
    by (simp add: checkBodySizeLimit_def)
next
  case (Some cl)
  have gt: "js_gt (parseInt cl) (Num L) = (parseInt cl = PosInf \<or> (\<exists>n. parseInt cl = Num n \<and> L < n))"
    by (cases "parseInt cl") simp_all
  show ?thesis
    using assms Some
    by (simp add: checkBodySizeLimit_def Let_def gt Response_json_def headers_get_def headers_set_def
          lower_header_names del: show_jsnum.simps)
qed

lemma applyMiddleware_rejected_size:
  assumes "checkBodySizeLimit req limit = Inr bc" and "\<not> valid bc"
  shows "applyMiddleware rt tbl req \<lparr>bodySizeLimit = Some limit, rateLimit = rl, securityHeaders = sh\<rparr>
           = (Inr \<lparr>middleware_error = body_error bc, modifiedRequest = None\<rparr>, tbl)"
  using assms by (simp add: applyMiddleware_def)

lemma checkBodySizeLimit_verdict:
  assumes "parseSize limit = Inr (Num L)"
  shows "\<exists>bc. checkBodySizeLimit req limit = Inr bc
           \<and> (\<not> valid bc) = (\<exists>cl. headers_get (request_headers req) ''content-length'' = Some cl
                                \<and> cl \<noteq> []
                                \<and> (parseInt cl = PosInf \<or> (\<exists>n. parseInt cl = Num n \<and> L < n)))
           \<and> (\<forall>cl. headers_get (request_headers req) ''content-length'' = Some cl \<and> \<not> valid bc \<longrightarrow>
                  body_error bc = Some
                    \<lparr>status = 413, statusText = '''',
                     response_headers = [''content-type'' \<mapsto> ''application/json''],
                     response_body = JsonBody
                       [(''error'', ''Payload too large''),
                        (''message'', ''Request body size ('' @ show_jsnum (parseInt cl)
                           @ '' bytes) exceeds limit ('' @ show_jsnum (Num L) @ '' bytes)'')]\<rparr>)
           \<and> (valid bc \<longrightarrow> body_error bc = None)
           \<and> (\<forall>rt tbl rl sh. \<not> valid bc \<longrightarrow>
                  applyMiddleware rt tbl req \<lparr>bodySizeLimit = Some limit, rateLimit = rl, securityHeaders = sh\<rparr>
                    = (Inr \<lparr>middleware_error = body_error bc, modifiedRequest = None\<rparr>, tbl))"
proof (cases "headers_get (request_headers req) ''content-length''")
  case None
  then have "checkBodySizeLimit req limit = Inr \<lparr>valid = True, body_error = None\<rparr>"
    by (rule checkBodySizeLimit_no_length)
  with None show ?thesis by simp
next
  case (Some cl)
  show ?thesis
  proof (cases "cl \<noteq> [] \<and> (parseInt cl = PosInf \<or> (\<exists>n. parseInt cl = Num n \<and> L < n))")
    case True
    with Some checkBodySizeLimit_parsed [OF assms, of req]
    have eq: "checkBodySizeLimit req limit =
        Inr \<lparr>valid = False,
             body_error = Some
               \<lparr>status = 413, statusText = '''',
                response_headers = [''content-type'' \<mapsto> ''application/json''],
                response_body = JsonBody
                  [(''error'', ''Payload too large''),
                   (''message'', ''Request body size ('' @ show_jsnum (parseInt cl)
                      @ '' bytes) exceeds limit ('' @ show_jsnum (Num L) @ '' bytes)'')]\<rparr>\<rparr>"
      by simp
    from applyMiddleware_rejected_size [OF eq]
    show ?thesis
      using Some True by (simp add: eq del: show_jsnum.simps)
  next
    case False
    with Some checkBodySizeLimit_parsed [OF assms, of req]
    have "checkBodySizeLimit req limit = Inr \<lparr>valid = True, body_error = None\<rparr>"
      by simp
    with Some False show ?thesis by simp
  qed
qed





text \<open>With a limit of \<open>2 ^ 53\<close> bytes the same header passes: the length read and the
  limit are the same double.\<close>

lemma checkBodySizeLimit_at_limit:
  "checkBodySizeLimit (with_header (client ''A'') ''Content-Length'' ''9007199254740993'')
       ''9007199254740992'' =
     Inr \<lparr>valid = True, body_error = None\<rparr>"
proof -
  have hd: "headers_get (request_headers (with_header (client ''A'') ''Content-Length'' ''9007199254740993''))
              ''content-length'' = Some ''9007199254740993''"
    by (simp add: with_header_def client_def headers_get_def headers_set_def lower_header_names)
  have lim: "parseSize ''9007199254740992'' = Inr (Num 9007199254740992)"
    by (simp add: parseSize_def size_match_def match_tail_def toLowerCase_def lower_char_def
          is_space_def is_digit_def is_lower_def parseFloat_def units_def number_eval)
  have "checkBodySizeLimit (with_header (client ''A'') ''Content-Length'' ''9007199254740993'')
         ''9007199254740992'' =
     (if ''9007199254740993'' \<noteq> []
         \<and> (parseInt ''9007199254740993'' = PosInf
              \<or> (\<exists>n. parseInt ''9007199254740993'' = Num n \<and> 9007199254740992 < n))
      then Inr \<lparr>valid = False,
                body_error = Some
                  \<lparr>status = 413, statusText = '''',
                   response_headers = [''content-type'' \<mapsto> ''application/json''],
                   response_body = JsonBody
                     [(''error'', ''Payload too large''),
                      (''message'', ''Request body size ('' @ show_jsnum (parseInt ''9007199254740993'')
                         @ '' bytes) exceeds limit ('' @ show_jsnum (Num 9007199254740992)
                         @ '' bytes)'')]\<rparr>\<rparr>
      else Inr \<lparr>valid = True, body_error = None\<rparr>)"
    unfolding checkBodySizeLimit_parsed [OF lim] hd by (simp only: option.case)
  then show ?thesis
    unfolding rounding_examples by (simp del: show_jsnum.simps)
qed




subsection \<open>Size strings\<close>

text \<open>The matcher accepts exactly the strings of the regular expression: digits, then
  possibly a point and digits, then white space, then lower-case letters.\<close>

lemma takeWhile_all: "list_all P xs \<Longrightarrow> ys = [] \<or> \<not> P (hd ys) \<Longrightarrow> takeWhile P (xs @ ys) = xs"
  by (induction xs) (auto simp add: takeWhile_eq_Nil_iff)

lemma dropWhile_all: "list_all P xs \<Longrightarrow> ys = [] \<or> \<not> P (hd ys) \<Longrightarrow> dropWhile P (xs @ ys) = ys"
  by (induction xs) (auto simp add: dropWhile_eq_self_iff)

lemma match_tail_shape:
  assumes "list_all is_space ws" and "list_all is_lower u"
  shows "match_tail (ws @ u) = Some (if u = [] then None else Some u)"
proof -
  have "u = [] \<or> \<not> is_space (hd u)"
    using assms(2) by (cases u) (auto simp add: is_digit_def is_space_def is_lower_def)
  with assms(1) have d: "dropWhile is_space (ws @ u) = u"
    by (rule dropWhile_all)
  have t: "takeWhile is_lower u = u" "dropWhile is_lower u = []"
    using takeWhile_all [OF assms(2), of "[]"] dropWhile_all [OF assms(2), of "[]"] by simp_all
  show ?thesis
    using assms(2) by (simp add: match_tail_def d t list_all_iff)
qed

lemma match_tail_sound:
  assumes "match_tail r = Some uo"
  shows "\<exists>ws u. r = ws @ u \<and> list_all is_space ws \<and> list_all is_lower u
           \<and> uo = (if u = [] then None else Some u)"
proof -
  let ?ws = "takeWhile is_space r" and ?u = "dropWhile is_space r"
  have e: "dropWhile is_lower ?u = []"
    using assms unfolding match_tail_def Let_def
    by (cases "dropWhile is_lower ?u = []") simp_all
  then have low: "\<forall>x \<in> set ?u. is_lower x"
    by (simp only: dropWhile_eq_Nil_conv)
  then have tk: "takeWhile is_lower ?u = ?u"
    by (simp only: takeWhile_eq_all_conv)
  have uo: "(if ?u = [] then None else Some ?u) = uo"
    using assms e unfolding match_tail_def Let_def tk by simp
  have sp: "\<forall>x \<in> set ?ws. is_space x"
    by (metis set_takeWhileD)
  have "r = ?ws @ ?u \<and> list_all is_space ?ws \<and> list_all is_lower ?u
           \<and> uo = (if ?u = [] then None else Some ?u)"
    using low sp uo by (simp add: list_all_iff)
  then show ?thesis
    by (intro exI)
qed


lemma size_match_no_fraction:
  assumes "ds \<noteq> []" and "list_all is_digit ds"
      and "r = [] \<or> (\<not> is_digit (hd r) \<and> hd r \<noteq> CHR ''.'')"
  shows "size_match (ds @ r) = map_option (\<lambda>u. (ds, None, u)) (match_tail r)"
proof -
  have nd: "r = [] \<or> \<not> is_digit (hd r)"
    using assms(3) by blast
  have t: "takeWhile is_digit (ds @ r) = ds" "dropWhile is_digit (ds @ r) = r"
    using takeWhile_all [OF assms(2) nd] dropWhile_all [OF assms(2) nd] by simp_all
  show ?thesis
    using assms(1,3) unfolding size_match_def t Let_def
    by (cases r) simp_all
qed

lemma size_match_integer:
  assumes "ds \<noteq> []" and "list_all is_digit ds" and "list_all is_space ws" and "list_all is_lower u"
  shows "size_match (ds @ ws @ u) = Some (ds, None, if u = [] then None else Some u)"
proof -
  have "ws @ u = [] \<or> (\<not> is_digit (hd (ws @ u)) \<and> hd (ws @ u) \<noteq> CHR ''.'')"
    using assms(3,4) by (cases ws; cases u) (auto simp add: is_digit_def is_space_def is_lower_def)
  from size_match_no_fraction [OF assms(1,2) this]
  show ?thesis
    by (simp add: match_tail_shape [OF assms(3,4)])
qed

lemma size_match_fraction:
  assumes "ds \<noteq> []" and "list_all is_digit ds" and "f \<noteq> []" and "list_all is_digit f"
      and "list_all is_space ws" and "list_all is_lower u"
  shows "size_match (ds @ CHR ''.'' # f @ ws @ u) = Some (ds, Some f, if u = [] then None else Some u)"
proof -
  have t: "takeWhile is_digit (ds @ CHR ''.'' # f @ ws @ u) = ds"
          "dropWhile is_digit (ds @ CHR ''.'' # f @ ws @ u) = CHR ''.'' # f @ ws @ u"
    using takeWhile_all [OF assms(2), of "CHR ''.'' # f @ ws @ u"]
      dropWhile_all [OF assms(2), of "CHR ''.'' # f @ ws @ u"]
    by (simp_all add: is_digit_def is_space_def is_lower_def)
  have nd: "ws @ u = [] \<or> \<not> is_digit (hd (ws @ u))"
    using assms(5,6) by (cases ws; cases u) (auto simp add: is_digit_def is_space_def is_lower_def)
  have t2: "takeWhile is_digit (f @ ws @ u) = f" "dropWhile is_digit (f @ ws @ u) = ws @ u"
    using takeWhile_all [OF assms(4) nd] dropWhile_all [OF assms(4) nd] by simp_all
  show ?thesis
    using assms(1,3) match_tail_shape [OF assms(5,6)]
    by (simp add: size_match_def t t2 Let_def)
qed



lemma size_match_sound:
  assumes "size_match t = Some (ds, fo, uo)"
  shows "\<exists>ws u. t = ds @ (case fo of None \<Rightarrow> [] | Some f \<Rightarrow> CHR ''.'' # f) @ ws @ u
           \<and> ds \<noteq> [] \<and> list_all is_digit ds
           \<and> (case fo of None \<Rightarrow> True | Some f \<Rightarrow> f \<noteq> [] \<and> list_all is_digit f)
           \<and> list_all is_space ws \<and> list_all is_lower u
           \<and> uo = (if u = [] then None else Some u)"
proof -
  let ?ds = "takeWhile is_digit t" and ?r = "dropWhile is_digit t"
  have split: "t = ?ds @ ?r" by simp
  have digs: "list_all is_digit ?ds"
    by (simp add: list_all_iff) (metis set_takeWhileD)
  from assms have ne: "?ds \<noteq> []"
    by (auto simp add: size_match_def Let_def split: if_splits)
  show ?thesis
  proof (cases "\<exists>r2. ?r = CHR ''.'' # r2")
    case True
    then obtain r2 where r: "?r = CHR ''.'' # r2" by blast
    let ?f = "takeWhile is_digit r2"
    from assms ne r have f: "?f \<noteq> []" and ds: "ds = ?ds" and fo: "fo = Some ?f"
      and mt: "match_tail (dropWhile is_digit r2) = Some uo"
      by (auto simp add: size_match_def Let_def split: if_splits)
    from match_tail_sound [OF mt] obtain ws u where
      tail: "dropWhile is_digit r2 = ws @ u" "list_all is_space ws" "list_all is_lower u"
        "uo = (if u = [] then None else Some u)"
      by blast
    have fd: "list_all is_digit ?f"
      by (simp add: list_all_iff) (metis set_takeWhileD)
    have "r2 = ?f @ dropWhile is_digit r2" by simp
    with tail(1) have "r2 = ?f @ ws @ u" by simp
    with split r have "t = ?ds @ CHR ''.'' # ?f @ ws @ u" by simp
    with ne digs f fd tail ds fo show ?thesis
      by (intro exI [of _ ws] exI [of _ u]) simp
  next
    case False
    with assms ne have ds: "ds = ?ds" and fo: "fo = None" and mt: "match_tail ?r = Some uo"
      by (auto simp add: size_match_def Let_def split: if_splits list.splits)
    from match_tail_sound [OF mt] obtain ws u where
      tail: "?r = ws @ u" "list_all is_space ws" "list_all is_lower u"
        "uo = (if u = [] then None else Some u)"
      by blast
    from split tail(1) have "t = ?ds @ ws @ u" by simp
    with ne digs tail ds fo show ?thesis
      by (intro exI [of _ ws] exI [of _ u]) simp
  qed
qed

lemma parseSize_matched:
  assumes "size_match (toLowerCase s) = Some (ds, fo, if u = [] then None else Some u)"
      and "u \<noteq> ''constructor''"
  shows "parseSize s =
     Inr (js_floor (js_times (parseFloat (ds, fo))
            (if u = ''kb'' then 1024 else if u = ''mb'' then 1024 * 1024
             else if u = ''gb'' then 1024 * 1024 * 1024 else 1)))"
  using assms by (simp add: parseSize_def units_def Let_def)

text \<open>A whole number of units: the nearest double, its rounded product with the unit,
  and the floor of that.\<close>

lemma parseSize_whole:
  assumes "toLowerCase s = ds @ ws @ u" and "ds \<noteq> []" and "list_all is_digit ds"
      and "list_all is_space ws" and "list_all is_lower u"
      and "u \<noteq> ''constructor''"
  shows "parseSize s =
     Inr (js_floor (js_times (round_double (digits_val ds) 1)
            (if u = ''kb'' then 1024 else if u = ''mb'' then 1024 * 1024
             else if u = ''gb'' then 1024 * 1024 * 1024 else 1)))"
proof -
  have m: "size_match (toLowerCase s) = Some (ds, None, if u = [] then None else Some u)"
    unfolding assms(1) by (rule size_match_integer [OF assms(2-5)])
  show ?thesis
    by (simp only: parseSize_matched [OF m assms(6)] parseFloat_def prod.case option.case)
qed

text \<open>Below \<open>2 ^ 53\<close> the product is exact.\<close>

lemma parseSize_integer:
  assumes "toLowerCase s = ds @ ws @ u" and "ds \<noteq> []" and "list_all is_digit ds"
      and "list_all is_space ws" and "list_all is_lower u"
      and "u \<noteq> ''constructor''" and "digits_val ds < 2 ^ 53"
  shows "parseSize s =
     Inr (Num (int (digits_val ds *
                 (if u = ''kb'' then 1024 else if u = ''mb'' then 1024 * 1024
                  else if u = ''gb'' then 1024 * 1024 * 1024 else 1))))"
proof -
  have m: "size_match (toLowerCase s) = Some (ds, None, if u = [] then None else Some u)"
    unfolding assms(1) by (rule size_match_integer [OF assms(2-5)])
  have f: "\<And>k. k \<le> 900 \<Longrightarrow>
      js_floor (js_times (round_double (digits_val ds) 1) (2 ^ k)) = Num (int (digits_val ds * 2 ^ k))"
    using assms(7) by (rule js_floor_times_exact)
  have p: "(1024 :: nat) = 2 ^ 10" "(1024 * 1024 :: nat) = 2 ^ 20" "(1024 * 1024 * 1024 :: nat) = 2 ^ 30"
    "(1 :: nat) = 2 ^ 0"
    by simp_all
  have "js_floor (js_times (round_double (digits_val ds) 1)
            (if u = ''kb'' then 1024 else if u = ''mb'' then 1024 * 1024
             else if u = ''gb'' then 1024 * 1024 * 1024 else 1))
        = Num (int (digits_val ds *
                 (if u = ''kb'' then 1024 else if u = ''mb'' then 1024 * 1024
                  else if u = ''gb'' then 1024 * 1024 * 1024 else 1)))"
    using f [of 10] f [of 20] f [of 30] f [of 0] unfolding p [symmetric]
    by (simp del: js_times.simps js_floor.simps)
  then show ?thesis
    by (simp only: parseSize_matched [OF m assms(6)] parseFloat_def prod.case option.case)
qed

text \<open>A number with a decimal part: the same, from the double nearest to the decimal.\<close>

lemma parseSize_fraction:
  assumes "toLowerCase s = ds @ CHR ''.'' # f @ ws @ u" and "ds \<noteq> []" and "list_all is_digit ds"
      and "f \<noteq> []" and "list_all is_digit f"
      and "list_all is_space ws" and "list_all is_lower u"
      and "u \<noteq> ''constructor''"
  shows "parseSize s =
     Inr (js_floor (js_times (round_double (digits_val (ds @ f)) (10 ^ length f))
            (if u = ''kb'' then 1024 else if u = ''mb'' then 1024 * 1024
             else if u = ''gb'' then 1024 * 1024 * 1024 else 1)))"
proof -
  have m: "size_match (toLowerCase s) = Some (ds, Some f, if u = [] then None else Some u)"
    unfolding assms(1) by (rule size_match_fraction [OF assms(2-7)])
  show ?thesis
    by (simp only: parseSize_matched [OF m assms(8)] parseFloat_def prod.case option.case)
qed

lemma parseSize_throws_iff:
  "(\<exists>e. parseSize s = Inl e) =
   (\<not> (\<exists>ds fs ws u. toLowerCase s = ds @ fs @ ws @ u \<and> ds \<noteq> [] \<and> list_all is_digit ds
          \<and> (fs = [] \<or> (\<exists>f. fs = CHR ''.'' # f \<and> f \<noteq> [] \<and> list_all is_digit f))
          \<and> list_all is_space ws \<and> list_all is_lower u))"
proof
  assume "\<exists>e. parseSize s = Inl e"
  then have none: "size_match (toLowerCase s) = None"
    by (auto simp add: parseSize_def Let_def split: option.splits)
  show "\<not> (\<exists>ds fs ws u. toLowerCase s = ds @ fs @ ws @ u \<and> ds \<noteq> [] \<and> list_all is_digit ds
          \<and> (fs = [] \<or> (\<exists>f. fs = CHR ''.'' # f \<and> f \<noteq> [] \<and> list_all is_digit f))
          \<and> list_all is_space ws \<and> list_all is_lower u)"
  proof
    assume "\<exists>ds fs ws u. toLowerCase s = ds @ fs @ ws @ u \<and> ds \<noteq> [] \<and> list_all is_digit ds
          \<and> (fs = [] \<or> (\<exists>f. fs = CHR ''.'' # f \<and> f \<noteq> [] \<and> list_all is_digit f))
          \<and> list_all is_space ws \<and> list_all is_lower u"
    then obtain ds fs ws u where sh: "toLowerCase s = ds @ fs @ ws @ u" "ds \<noteq> []" "list_all is_digit ds"
      "fs = [] \<or> (\<exists>f. fs = CHR ''.'' # f \<and> f \<noteq> [] \<and> list_all is_digit f)"
      "list_all is_space ws" "list_all is_lower u"
      by blast
    from sh(4) show False
    proof
      assume "fs = []"
      with sh size_match_integer [of ds ws u] none show False by simp
    next
      assume "\<exists>f. fs = CHR ''.'' # f \<and> f \<noteq> [] \<and> list_all is_digit f"
      then obtain f where "fs = CHR ''.'' # f" "f \<noteq> []" "list_all is_digit f" by blast
      with sh size_match_fraction [of ds f ws u] none show False by simp
    qed
  qed
next
  assume no: "\<not> (\<exists>ds fs ws u. toLowerCase s = ds @ fs @ ws @ u \<and> ds \<noteq> [] \<and> list_all is_digit ds
          \<and> (fs = [] \<or> (\<exists>f. fs = CHR ''.'' # f \<and> f \<noteq> [] \<and> list_all is_digit f))
          \<and> list_all is_space ws \<and> list_all is_lower u)"
  have "size_match (toLowerCase s) = None"
  proof (rule ccontr)
    assume "size_match (toLowerCase s) \<noteq> None"
    then obtain ds fo uo where "size_match (toLowerCase s) = Some (ds, fo, uo)"
      by (cases "size_match (toLowerCase s)") auto
    from size_match_sound [OF this] obtain ws u where
      sh: "toLowerCase s = ds @ (case fo of None \<Rightarrow> [] | Some f \<Rightarrow> CHR ''.'' # f) @ ws @ u"
        "ds \<noteq> []" "list_all is_digit ds"
        "case fo of None \<Rightarrow> True | Some f \<Rightarrow> f \<noteq> [] \<and> list_all is_digit f"
        "list_all is_space ws" "list_all is_lower u"
      by blast
    have "(case fo of None \<Rightarrow> [] | Some f \<Rightarrow> CHR ''.'' # f) = []
          \<or> (\<exists>f. (case fo of None \<Rightarrow> [] | Some f \<Rightarrow> CHR ''.'' # f) = CHR ''.'' # f
                \<and> f \<noteq> [] \<and> list_all is_digit f)"
      using sh(4) by (cases fo) simp_all
    with sh no show False by blast
  qed
  then show "\<exists>e. parseSize s = Inl e"
    by (simp add: parseSize_def)
qed

lemma parseSize_error: "parseSize s = Inl e \<Longrightarrow> e = InvalidSizeFormat s"
  by (auto simp add: parseSize_def Let_def split: option.splits)

text \<open>The limit is parsed inside the check of a request, and only when the request has a
  \<^verbatim>\<open>Content-Length\<close>: a malformed limit makes that call throw, and is not looked at for a
  request without the header.\<close>

lemma checkBodySizeLimit_malformed:
  assumes "parseSize limit = Inl e"
      and "headers_get (request_headers req) ''content-length'' = Some cl" and "cl \<noteq> []"
  shows "checkBodySizeLimit req limit = Inl (InvalidSizeFormat limit)"
  using assms parseSize_error [OF assms(1)] by (simp add: checkBodySizeLimit_def)

lemma applyMiddleware_malformed:
  assumes "checkBodySizeLimit req limit = Inl e"
  shows "applyMiddleware rt tbl req \<lparr>bodySizeLimit = Some limit, rateLimit = rl, securityHeaders = sh\<rparr>
           = (Inl e, tbl)"
  using assms by (simp add: applyMiddleware_def)

lemma malformed_limit_examples:
  "checkBodySizeLimit (with_header (client ''A'') ''Content-Length'' ''2048'') ''ten''
     = Inl (InvalidSizeFormat ''ten'')"
  "applyMiddleware (runtime_at (1 / 2) 5) Map.empty (with_header (client ''A'') ''Content-Length'' ''2048'')
       \<lparr>bodySizeLimit = Some ''ten'', rateLimit = None, securityHeaders = None\<rparr>
     = (Inl (InvalidSizeFormat ''ten''), Map.empty)"
  "checkBodySizeLimit (client ''A'') ''ten'' = Inr \<lparr>valid = True, body_error = None\<rparr>"
  "applyMiddleware (runtime_at (1 / 2) 5) Map.empty (client ''A'')
       \<lparr>bodySizeLimit = Some ''ten'', rateLimit = None, securityHeaders = None\<rparr>
     = (Inr \<lparr>middleware_error = None, modifiedRequest = Some (client ''A'')\<rparr>,
        [''A'' \<mapsto> \<lparr>count = 1, resetAt = 60005\<rparr>])"
proof -
  let ?big = "with_header (client ''A'') ''Content-Length'' ''2048''"
  have hd: "headers_get (request_headers ?big) ''content-length'' = Some ''2048''"
    by (simp add: with_header_def client_def headers_get_def headers_set_def lower_header_names)
  have nl: "headers_get (request_headers (client ''A'')) ''content-length'' = None"
    by (simp add: client_def headers_get_def lower_header_names)
  show a: "checkBodySizeLimit ?big ''ten'' = Inl (InvalidSizeFormat ''ten'')"
    by (rule checkBodySizeLimit_malformed [OF parseSize_examples(9) hd]) simp
  show "applyMiddleware (runtime_at (1 / 2) 5) Map.empty ?big
       \<lparr>bodySizeLimit = Some ''ten'', rateLimit = None, securityHeaders = None\<rparr>
     = (Inl (InvalidSizeFormat ''ten''), Map.empty)"
    by (rule applyMiddleware_malformed [OF a])
  show b: "checkBodySizeLimit (client ''A'') ''ten'' = Inr \<lparr>valid = True, body_error = None\<rparr>"
    by (rule checkBodySizeLimit_no_length [OF nl])
  have rc: "checkRateLimit (runtime_at (1 / 2) 5) Map.empty (client ''A'') 100 60000 =
      (\<lparr>rate_allowed = True, rate_error = None,
        rate_headers = rate_limit_headers (runtime_at (1 / 2) 5) 100
          \<lparr>allowed = True, remaining = 99, verdict_resetAt = 60005\<rparr>\<rparr>,
       [''A'' \<mapsto> \<lparr>count = 1, resetAt = 60005\<rparr>])"
    by (simp add: checkRateLimit_def Let_def isAllowed_def new_window_def getClientId_client
          rateLimiter_def new_RateLimiter_def runtime_at_def)
  show "applyMiddleware (runtime_at (1 / 2) 5) Map.empty (client ''A'')
       \<lparr>bodySizeLimit = Some ''ten'', rateLimit = None, securityHeaders = None\<rparr>
     = (Inr \<lparr>middleware_error = None, modifiedRequest = Some (client ''A'')\<rparr>,
        [''A'' \<mapsto> \<lparr>count = 1, resetAt = 60005\<rparr>])"
    by (simp add: applyMiddleware_def b rc)
qed

text \<open>
  C8, as the specification states it, fails twice. A unit that is not in the table is not
  rejected: the string \<open>10tb\<close> is read as 10 bytes. And the error of a malformed limit is
  an error of the request being checked, not of the configuration: with the limit \<open>ten\<close>,
  the check of a request with \<^verbatim>\<open>Content-Length: 2048\<close> throws, in \<^verbatim>\<open>checkBodySizeLimit\<close> and so
  in \<^verbatim>\<open>applyMiddleware\<close>, while a request without the header passes both and is counted by
  the rate limiter.
\<close>

theorem parseSize_unknown_unit_is_bytes:
  "parseSize ''10tb'' = Inr (Num 10)
   \<and> checkBodySizeLimit (with_header (client ''A'') ''Content-Length'' ''2048'') ''ten''
       = Inl (InvalidSizeFormat ''ten'')
   \<and> applyMiddleware (runtime_at (1 / 2) 5) Map.empty (with_header (client ''A'') ''Content-Length'' ''2048'')
         \<lparr>bodySizeLimit = Some ''ten'', rateLimit = None, securityHeaders = None\<rparr>
       = (Inl (InvalidSizeFormat ''ten''), Map.empty)
   \<and> checkBodySizeLimit (client ''A'') ''ten'' = Inr \<lparr>valid = True, body_error = None\<rparr>
   \<and> applyMiddleware (runtime_at (1 / 2) 5) Map.empty (client ''A'')
         \<lparr>bodySizeLimit = Some ''ten'', rateLimit = None, securityHeaders = None\<rparr>
       = (Inr \<lparr>middleware_error = None, modifiedRequest = Some (client ''A'')\<rparr>,
          [''A'' \<mapsto> \<lparr>count = 1, resetAt = 60005\<rparr>])"
  using parseSize_examples(7) malformed_limit_examples by (intro conjI)

text \<open>
  C8, amended. \<^verbatim>\<open>parseSize\<close> throws, with the message naming the string, exactly when the
  lower-cased string is not made of digits, an optional point with digits, optional white
  space and optional letters. Otherwise, for letters other than \<open>constructor\<close>, it returns
  \<^verbatim>\<open>Math.floor\<close> of the product, in double arithmetic, of the number and the unit: 1024,
  1024 * 1024 and 1024 * 1024 * 1024 for \<open>kb\<close>, \<open>mb\<close> and \<open>gb\<close>, and 1 for \<open>b\<close>, for no unit
  and for every other run of letters. For a whole number below \<open>2 ^ 53\<close> that is the number
  times the unit, exactly: \<open>1kb\<close> is 1024, \<open>10mb\<close> is 10485760 and \<open>512\<close> is 512. The error
  belongs to a request: whatever the malformed limit, \<^verbatim>\<open>checkBodySizeLimit\<close> throws it for
  every request with a non-empty \<^verbatim>\<open>Content-Length\<close> and passes every request without the header.
\<close>

theorem parseSize_units:
  "((\<exists>e. parseSize s = Inl e) =
     (\<not> (\<exists>ds fs ws u. toLowerCase s = ds @ fs @ ws @ u \<and> ds \<noteq> [] \<and> list_all is_digit ds
            \<and> (fs = [] \<or> (\<exists>f. fs = CHR ''.'' # f \<and> f \<noteq> [] \<and> list_all is_digit f))
            \<and> list_all is_space ws \<and> list_all is_lower u)))
   \<and> (\<forall>e. parseSize s = Inl e \<longrightarrow> e = InvalidSizeFormat s)
   \<and> (toLowerCase s = ds @ ws @ u \<and> ds \<noteq> [] \<and> list_all is_digit ds
        \<and> list_all is_space ws \<and> list_all is_lower u
        \<and> u \<noteq> ''constructor'' \<longrightarrow>
        parseSize s =
          Inr (js_floor (js_times (round_double (digits_val ds) 1)
                 (if u = ''kb'' then 1024 else if u = ''mb'' then 1024 * 1024
                  else if u = ''gb'' then 1024 * 1024 * 1024 else 1))))
   \<and> (toLowerCase s = ds @ ws @ u \<and> ds \<noteq> [] \<and> list_all is_digit ds
        \<and> list_all is_space ws \<and> list_all is_lower u
        \<and> u \<noteq> ''constructor'' \<and> digits_val ds < 2 ^ 53 \<longrightarrow>
        parseSize s =
          Inr (Num (int (digits_val ds *
                      (if u = ''kb'' then 1024 else if u = ''mb'' then 1024 * 1024
                       else if u = ''gb'' then 1024 * 1024 * 1024 else 1)))))
   \<and> (toLowerCase s = ds @ CHR ''.'' # f @ ws @ u \<and> ds \<noteq> [] \<and> list_all is_digit ds
        \<and> f \<noteq> [] \<and> list_all is_digit f \<and> list_all is_space ws \<and> list_all is_lower u
        \<and> u \<noteq> ''constructor'' \<longrightarrow>
        parseSize s =
          Inr (js_floor (js_times (round_double (digits_val (ds @ f)) (10 ^ length f))
                 (if u = ''kb'' then 1024 else if u = ''mb'' then 1024 * 1024
                  else if u = ''gb'' then 1024 * 1024 * 1024 else 1))))
   \<and> ((\<exists>e. parseSize s = Inl e) \<longrightarrow>
        (\<forall>req. checkBodySizeLimit req s =
           (case headers_get (request_headers req) ''content-length'' of
              None \<Rightarrow> Inr \<lparr>valid = True, body_error = None\<rparr>
            | Some cl \<Rightarrow> if cl = [] then Inr \<lparr>valid = True, body_error = None\<rparr>
                         else Inl (InvalidSizeFormat s))))
   \<and> parseSize ''1kb'' = Inr (Num 1024)
   \<and> parseSize ''10mb'' = Inr (Num 10485760)
   \<and> parseSize ''512'' = Inr (Num 512)"
proof -
  have a: "(\<exists>e. parseSize s = Inl e) =
     (\<not> (\<exists>ds fs ws u. toLowerCase s = ds @ fs @ ws @ u \<and> ds \<noteq> [] \<and> list_all is_digit ds
            \<and> (fs = [] \<or> (\<exists>f. fs = CHR ''.'' # f \<and> f \<noteq> [] \<and> list_all is_digit f))
            \<and> list_all is_space ws \<and> list_all is_lower u))"
    by (rule parseSize_throws_iff)
  have b: "\<forall>e. parseSize s = Inl e \<longrightarrow> e = InvalidSizeFormat s"
    using parseSize_error by blast
  have w: "toLowerCase s = ds @ ws @ u \<and> ds \<noteq> [] \<and> list_all is_digit ds
        \<and> list_all is_space ws \<and> list_all is_lower u
        \<and> u \<noteq> ''constructor'' \<longrightarrow>
        parseSize s =
          Inr (js_floor (js_times (round_double (digits_val ds) 1)
                 (if u = ''kb'' then 1024 else if u = ''mb'' then 1024 * 1024
                  else if u = ''gb'' then 1024 * 1024 * 1024 else 1)))"
    using parseSize_whole [of s ds ws u] by blast
  have c: "toLowerCase s = ds @ ws @ u \<and> ds \<noteq> [] \<and> list_all is_digit ds
        \<and> list_all is_space ws \<and> list_all is_lower u
        \<and> u \<noteq> ''constructor'' \<and> digits_val ds < 2 ^ 53 \<longrightarrow>
        parseSize s =
          Inr (Num (int (digits_val ds *
                      (if u = ''kb'' then 1024 else if u = ''mb'' then 1024 * 1024
                       else if u = ''gb'' then 1024 * 1024 * 1024 else 1))))"
    using parseSize_integer [of s ds ws u] by blast
  have d: "toLowerCase s = ds @ CHR ''.'' # f @ ws @ u \<and> ds \<noteq> [] \<and> list_all is_digit ds
        \<and> f \<noteq> [] \<and> list_all is_digit f \<and> list_all is_space ws \<and> list_all is_lower u
        \<and> u \<noteq> ''constructor'' \<longrightarrow>
        parseSize s =
          Inr (js_floor (js_times (round_double (digits_val (ds @ f)) (10 ^ length f))
                 (if u = ''kb'' then 1024 else if u = ''mb'' then 1024 * 1024
                  else if u = ''gb'' then 1024 * 1024 * 1024 else 1)))"
    using parseSize_fraction [of s ds f ws u] by blast
  have e: "(\<exists>e. parseSize s = Inl e) \<longrightarrow>
        (\<forall>req. checkBodySizeLimit req s =
           (case headers_get (request_headers req) ''content-length'' of
              None \<Rightarrow> Inr \<lparr>valid = True, body_error = None\<rparr>
            | Some cl \<Rightarrow> if cl = [] then Inr \<lparr>valid = True, body_error = None\<rparr>
                         else Inl (InvalidSizeFormat s)))"
  proof (intro impI allI)
    fix req
    assume "\<exists>e. parseSize s = Inl e"
    then obtain e where "parseSize s = Inl e" by blast
    with parseSize_error [OF this] have "parseSize s = Inl (InvalidSizeFormat s)" by simp
    then show "checkBodySizeLimit req s =
           (case headers_get (request_headers req) ''content-length'' of
              None \<Rightarrow> Inr \<lparr>valid = True, body_error = None\<rparr>
            | Some cl \<Rightarrow> if cl = [] then Inr \<lparr>valid = True, body_error = None\<rparr>
                         else Inl (InvalidSizeFormat s))"
      by (simp add: checkBodySizeLimit_def split: option.splits)
  qed
  from a b w c d e parseSize_examples(1) parseSize_examples(2) parseSize_examples(3)
  show ?thesis
    by (intro conjI)
qed

theorem parseSize_units_witness:
  "(\<exists>e. parseSize ''ten'' = Inl e \<and> e = InvalidSizeFormat ''ten'')
   \<and> parseSize ''9007199254740993'' = Inr (Num 9007199254740992)
   \<and> parseSize ''10pb'' = Inr (Num 10)
   \<and> parseSize ''0.1kb'' = Inr (Num 102)
   \<and> checkBodySizeLimit (with_header (client ''A'') ''Content-Length'' ''2048'') ''ten''
       = Inl (InvalidSizeFormat ''ten'')"
proof (intro conjI)
  have t: "\<exists>e. parseSize ''ten'' = Inl e"
    by (simp add: parseSize_examples)
  then obtain e where e: "parseSize ''ten'' = Inl e"
    by blast
  from parseSize_units [THEN conjunct2, THEN conjunct1, THEN spec, THEN mp, OF e]
  have "e = InvalidSizeFormat ''ten''" .
  with e show "\<exists>e. parseSize ''ten'' = Inl e \<and> e = InvalidSizeFormat ''ten''"
    by blast
  have b: "digits_val ''9007199254740993'' = 9007199254740993"
    by (simp add: digits_val_def digit_val_def)
  have k: "toLowerCase ''9007199254740993'' = ''9007199254740993'' @ [] @ []
           \<and> ''9007199254740993'' \<noteq> [] \<and> list_all is_digit ''9007199254740993''
           \<and> list_all is_space [] \<and> list_all is_lower []
           \<and> [] \<noteq> ''constructor''"
    by (simp add: lower_examples is_digit_def)
  from parseSize_units [THEN conjunct2, THEN conjunct2, THEN conjunct1, THEN mp, OF k]
  show "parseSize ''9007199254740993'' = Inr (Num 9007199254740992)"
    unfolding b by (simp add: number_eval)
  have d: "digits_val ''10'' = 10"
    by (simp add: digits_val_def digit_val_def)
  have h: "toLowerCase ''10pb'' = ''10'' @ [] @ ''pb'' \<and> ''10'' \<noteq> [] \<and> list_all is_digit ''10''
           \<and> list_all is_space [] \<and> list_all is_lower ''pb''
           \<and> ''pb'' \<noteq> ''constructor'' \<and> digits_val ''10'' < 2 ^ 53"
    by (simp add: lower_examples d is_digit_def is_lower_def)
  from parseSize_units [THEN conjunct2, THEN conjunct2, THEN conjunct2, THEN conjunct1, THEN mp, OF h]
  show "parseSize ''10pb'' = Inr (Num 10)"
    by (simp add: d)
  have g: "toLowerCase ''0.1kb'' = ''0'' @ CHR ''.'' # ''1'' @ [] @ ''kb'' \<and> ''0'' \<noteq> [] \<and> list_all is_digit ''0''
           \<and> ''1'' \<noteq> [] \<and> list_all is_digit ''1'' \<and> list_all is_space [] \<and> list_all is_lower ''kb''
           \<and> ''kb'' \<noteq> ''constructor''"
    by (simp add: lower_examples is_digit_def is_lower_def)
  from parseSize_units [THEN conjunct2, THEN conjunct2, THEN conjunct2, THEN conjunct2,
        THEN conjunct1, THEN mp, OF g]
  show "parseSize ''0.1kb'' = Inr (Num 102)"
    by (simp add: number_eval)
  have hd: "headers_get (request_headers (with_header (client ''A'') ''Content-Length'' ''2048''))
              ''content-length'' = Some ''2048''"
    by (simp add: with_header_def client_def headers_get_def headers_set_def lower_header_names)
  from parseSize_units [THEN conjunct2, THEN conjunct2, THEN conjunct2, THEN conjunct2,
        THEN conjunct2, THEN conjunct1, THEN mp, OF t, THEN spec,
        of "with_header (client ''A'') ''Content-Length'' ''2048''"]
  show "checkBodySizeLimit (with_header (client ''A'') ''Content-Length'' ''2048'') ''ten''
       = Inl (InvalidSizeFormat ''ten'')"
    by (simp add: hd)
qed


subsection \<open>The worker\<close>

lemma status_Response_json: "status (Response_json d st hs) = st"
  by (simp add: Response_json_def)

text \<open>With the options of the worker, \<^verbatim>\<open>applyMiddleware\<close> never throws: it lets the
  request through or returns the 413 or the 429 response.\<close>

lemma applyMiddleware_worker_cases:
  "\<exists>tbl'. applyMiddleware rt tbl req worker_options
             = (Inr \<lparr>middleware_error = None, modifiedRequest = Some req\<rparr>, tbl')
         \<or> (\<exists>err. applyMiddleware rt tbl req worker_options
                    = (Inr \<lparr>middleware_error = Some err, modifiedRequest = None\<rparr>, tbl')
                \<and> (status err = 413 \<or> status err = 429))"
proof -
  have lim: "parseSize ''10mb'' = Inr (Num 10485760)"
    by (rule parseSize_examples)
  from checkBodySizeLimit_verdict [OF lim, of req] obtain bc where
    bc: "checkBodySizeLimit req ''10mb'' = Inr bc"
    and over: "(\<not> valid bc) = (\<exists>cl. headers_get (request_headers req) ''content-length'' = Some cl
                                \<and> cl \<noteq> []
                                \<and> (parseInt cl = PosInf \<or> (\<exists>n. parseInt cl = Num n \<and> 10485760 < n)))"
    and err: "\<forall>cl. headers_get (request_headers req) ''content-length'' = Some cl \<and> \<not> valid bc \<longrightarrow>
                  body_error bc = Some
                    \<lparr>status = 413, statusText = '''',
                     response_headers = [''content-type'' \<mapsto> ''application/json''],
                     response_body = JsonBody
                       [(''error'', ''Payload too large''),
                        (''message'', ''Request body size ('' @ show_jsnum (parseInt cl)
                           @ '' bytes) exceeds limit ('' @ show_jsnum (Num 10485760) @ '' bytes)'')]\<rparr>"
    by (elim exE conjE)
  show ?thesis
  proof (cases "valid bc")
    case False
    with over obtain cl where "headers_get (request_headers req) ''content-length'' = Some cl"
      by blast
    with err False have "\<exists>e. body_error bc = Some e \<and> status e = 413"
      by (simp del: show_jsnum.simps)
    then obtain e where e: "body_error bc = Some e" "status e = 413"
      by blast
    from bc False e show ?thesis
      by (simp add: applyMiddleware_def worker_options_def)
  next
    case True
    obtain v lim where
      run: "isAllowed (if random rt < 1 / 1000
                          then cleanup (rateLimiter\<lparr>requests := tbl\<rparr>) (now_cleanup rt)
                          else rateLimiter\<lparr>requests := tbl\<rparr>) req (now_isAllowed rt) = (v, lim)"
      and cfg: "maxRequests lim = 100" "windowMs lim = 60000"
      and res: "\<And>m w. checkRateLimit rt tbl req m w =
           (\<lparr>rate_allowed = allowed v,
             rate_error =
               (if allowed v then None
                else Some (Response_json
                   [(''error'', ''Too many requests''),
                    (''message'', ''Rate limit exceeded. Please try again later.'')]
                   429
                   (headers_set (rate_limit_headers rt m v) ''Retry-After''
                      (show_int (ceiling (of_int (verdict_resetAt v - now_retry rt) / (1000 :: rat))))))),
             rate_headers = rate_limit_headers rt m v\<rparr>, requests lim)"
      using checkRateLimit_via_verdict [of rt tbl req] by (elim exE conjE) (rule that, assumption+, simp)
    from bc True show ?thesis
      by (cases "allowed v")
        (simp_all add: applyMiddleware_def worker_options_def res status_Response_json)
  qed
qed

text \<open>Every request that is not a preflight gets a decorated response: the application's,
  the 413 or the 429, through \<^verbatim>\<open>addSecurityHeaders\<close> and then \<^verbatim>\<open>addCORSHeaders\<close>.\<close>

lemma fetch_non_preflight:
  assumes "request_method req \<noteq> ''OPTIONS''"
  shows "\<exists>r tbl'. fetch requestHandler rt tbl req env
                    = (Inr (addCORSHeaders (addSecurityHeaders r) req (allowed_origin env)), tbl')
           \<and> (r = requestHandler req \<or> status r = 413 \<or> status r = 429)"
proof -
  have np: "\<not> isPreflight (handleCORS req (allowed_origin env))"
    using assms by (simp add: handleCORS_def)
  from applyMiddleware_worker_cases [of rt tbl req] obtain tbl' where
    "applyMiddleware rt tbl req worker_options
             = (Inr \<lparr>middleware_error = None, modifiedRequest = Some req\<rparr>, tbl')
         \<or> (\<exists>err. applyMiddleware rt tbl req worker_options
                    = (Inr \<lparr>middleware_error = Some err, modifiedRequest = None\<rparr>, tbl')
                \<and> (status err = 413 \<or> status err = 429))"
    by blast
  then show ?thesis
  proof
    assume "applyMiddleware rt tbl req worker_options
             = (Inr \<lparr>middleware_error = None, modifiedRequest = Some req\<rparr>, tbl')"
    with np have "fetch requestHandler rt tbl req env
        = (Inr (addCORSHeaders (addSecurityHeaders (requestHandler req)) req (allowed_origin env)), tbl')"
      by (simp add: fetch_def Let_def)
    then show ?thesis by blast
  next
    assume "\<exists>err. applyMiddleware rt tbl req worker_options
                    = (Inr \<lparr>middleware_error = Some err, modifiedRequest = None\<rparr>, tbl')
                \<and> (status err = 413 \<or> status err = 429)"
    then obtain err where e: "applyMiddleware rt tbl req worker_options
                    = (Inr \<lparr>middleware_error = Some err, modifiedRequest = None\<rparr>, tbl')"
      and st: "status err = 413 \<or> status err = 429"
      by blast
    from np e have "fetch requestHandler rt tbl req env
        = (Inr (addCORSHeaders (addSecurityHeaders err) req (allowed_origin env)), tbl')"
      by (simp add: fetch_def Let_def)
    with st show ?thesis by blast
  qed
qed

text \<open>The two decorations leave the seven security headers on the response, with their
  fixed values, and keep its status and body.\<close>

lemma security_headers_kept:
  "headers_get (response_headers (addCORSHeaders (addSecurityHeaders r) req origin)) ''X-Frame-Options''
     = Some ''DENY''
   \<and> headers_get (response_headers (addCORSHeaders (addSecurityHeaders r) req origin)) ''X-Content-Type-Options''
     = Some ''nosniff''
   \<and> headers_get (response_headers (addCORSHeaders (addSecurityHeaders r) req origin)) ''X-XSS-Protection''
     = Some ''1; mode=block''
   \<and> headers_get (response_headers (addCORSHeaders (addSecurityHeaders r) req origin)) ''Strict-Transport-Security''
     = Some ''max-age=31536000; includeSubDomains''
   \<and> headers_get (response_headers (addCORSHeaders (addSecurityHeaders r) req origin)) ''Content-Security-Policy''
     = Some csp_value
   \<and> headers_get (response_headers (addCORSHeaders (addSecurityHeaders r) req origin)) ''Referrer-Policy''
     = Some ''strict-origin-when-cross-origin''
   \<and> headers_get (response_headers (addCORSHeaders (addSecurityHeaders r) req origin)) ''Permissions-Policy''
     = Some permissions_value
   \<and> status (addCORSHeaders (addSecurityHeaders r) req origin) = status r
   \<and> response_body (addCORSHeaders (addSecurityHeaders r) req origin) = response_body r"
  by (simp add: addCORSHeaders_def addSecurityHeaders_def headers_get_def headers_set_def
        lower_header_names)

text \<open>A first request of a client, passed to the application and decorated.\<close>

lemma fetch_example:
  "fetch downstream_ok (runtime_at (1 / 2) 5) Map.empty (client ''A'') \<lparr>FRONTEND_URL = None\<rparr> =
     (Inr (addCORSHeaders (addSecurityHeaders (downstream_ok (client ''A''))) (client ''A'')
             ''http://localhost:5173''),
      [''A'' \<mapsto> \<lparr>count = 1, resetAt = 60005\<rparr>])"
proof -
  have cl: "headers_get (request_headers (client ''A'')) ''content-length'' = None"
    by (simp add: client_def headers_get_def lower_header_names)
  have np: "\<not> isPreflight (handleCORS (client ''A'') ''http://localhost:5173'')"
    by (simp add: handleCORS_def client_def)
  have rc: "checkRateLimit (runtime_at (1 / 2) 5) Map.empty (client ''A'') 100 900000 =
      (\<lparr>rate_allowed = True, rate_error = None,
        rate_headers = rate_limit_headers (runtime_at (1 / 2) 5) 100
          \<lparr>allowed = True, remaining = 99, verdict_resetAt = 60005\<rparr>\<rparr>,
       [''A'' \<mapsto> \<lparr>count = 1, resetAt = 60005\<rparr>])"
    by (simp add: checkRateLimit_def Let_def isAllowed_def new_window_def getClientId_client
          rateLimiter_def new_RateLimiter_def runtime_at_def)
  have mw: "applyMiddleware (runtime_at (1 / 2) 5) Map.empty (client ''A'') worker_options =
      (Inr \<lparr>middleware_error = None, modifiedRequest = Some (client ''A'')\<rparr>,
       [''A'' \<mapsto> \<lparr>count = 1, resetAt = 60005\<rparr>])"
    by (simp add: applyMiddleware_def worker_options_def checkBodySizeLimit_no_length [OF cl] rc)
  show ?thesis
    using np by (simp add: fetch_def Let_def allowed_origin_def mw)
qed

text \<open>A preflight request, whatever its headers, gets the answer of \<^verbatim>\<open>handleCORS\<close> as it
  was built: the 204 or the 403 response, without \<^verbatim>\<open>X-Frame-Options\<close>, the table untouched.\<close>

lemma fetch_preflight:
  assumes "request_method req = ''OPTIONS''"
  shows "\<exists>r. handleCORS req (allowed_origin env) = \<lparr>isPreflight = True, preflightResponse = Some r\<rparr>
           \<and> fetch requestHandler rt tbl req env = (Inr r, tbl)
           \<and> (status r = 204 \<or> status r = 403)
           \<and> headers_get (response_headers r) ''X-Frame-Options'' = None"
  using assms
  by (cases "headers_get (request_headers req) ''Origin'' = Some (allowed_origin env)")
    (simp_all add: fetch_def handleCORS_def Let_def headers_get_def headers_set_def lower_header_names)

text \<open>
  C1. Every response that leaves the worker is to carry the security headers, the 403 and
  the 204 of the preflight check included. The worker decorates the application's
  response, the 413 and the 429, but it returns the answer of \<^verbatim>\<open>handleCORS\<close> to a preflight
  request before either decoration. With the default origin, an \<^verbatim>\<open>OPTIONS\<close> request without
  \<^verbatim>\<open>Origin\<close> gets the 403 response with the content type as only header, and one from the
  allowed origin gets the 204 response with the five CORS headers only; neither carries
  \<^verbatim>\<open>X-Frame-Options\<close>.
\<close>

theorem fetch_preflight_undecorated:
  "fetch downstream_ok (runtime_at (1 / 2) 5) Map.empty ((client ''A'')\<lparr>request_method := ''OPTIONS''\<rparr>)
      \<lparr>FRONTEND_URL = None\<rparr> =
     (Inr \<lparr>status = 403, statusText = '''',
           response_headers = [''content-type'' \<mapsto> ''text/plain;charset=UTF-8''],
           response_body = TextBody ''Forbidden''\<rparr>, Map.empty)
   \<and> headers_get [''content-type'' \<mapsto> ''text/plain;charset=UTF-8''] ''X-Frame-Options'' = None
   \<and> fetch downstream_ok (runtime_at (1 / 2) 5) Map.empty
        (with_header ((client ''A'')\<lparr>request_method := ''OPTIONS''\<rparr>) ''Origin'' ''http://localhost:5173'')
        \<lparr>FRONTEND_URL = None\<rparr> =
     (Inr \<lparr>status = 204, statusText = '''',
           response_headers =
             [''access-control-allow-origin'' \<mapsto> ''http://localhost:5173'',
              ''access-control-allow-methods'' \<mapsto> ''GET, POST, PUT, DELETE, PATCH, OPTIONS'',
              ''access-control-allow-headers'' \<mapsto> ''Content-Type, Authorization'',
              ''access-control-max-age'' \<mapsto> ''86400'',
              ''access-control-allow-credentials'' \<mapsto> ''true''],
           response_body = NullBody\<rparr>, Map.empty)
   \<and> headers_get
         [''access-control-allow-origin'' \<mapsto> ''http://localhost:5173'',
          ''access-control-allow-methods'' \<mapsto> ''GET, POST, PUT, DELETE, PATCH, OPTIONS'',
          ''access-control-allow-headers'' \<mapsto> ''Content-Type, Authorization'',
          ''access-control-max-age'' \<mapsto> ''86400'',
          ''access-control-allow-credentials'' \<mapsto> ''true''] ''X-Frame-Options'' = None"
  by (simp add: fetch_def handleCORS_def allowed_origin_def client_def with_header_def Let_def
        headers_get_def headers_set_def lower_header_names)

end
